theory Spec2Isabelle
  imports Main "HOL-Library.Multiset"
begin

section \<open>Domain model (finance_classes.py, lines 6-40)\<close>

text \<open>
  Python strings are modelled as \<open>string\<close> holding their UTF-8 bytes (the encoding of the
  backing file). The code only compares strings for equality and hands them to the csv
  module, whose special characters are ASCII, so nothing depends on the difference
  between bytes and code points.

  \<open>TransactionType\<close> is the enum; \<open>type_value\<close> is its \<open>.value\<close>, the Russian display label.
\<close>

datatype TransactionType = INCOME | EXPENSE

definition Dohod :: string where
  "Dohod = [CHR 0xD0, CHR 0x94, CHR 0xD0, CHR 0xBE, CHR 0xD1, CHR 0x85, CHR 0xD0, CHR 0xBE,
            CHR 0xD0, CHR 0xB4]"

definition Rashod :: string where
  "Rashod = [CHR 0xD0, CHR 0xA0, CHR 0xD0, CHR 0xB0, CHR 0xD1, CHR 0x81, CHR 0xD1, CHR 0x85,
             CHR 0xD0, CHR 0xBE, CHR 0xD0, CHR 0xB4]"

fun type_value :: "TransactionType \<Rightarrow> string" where
  "type_value INCOME = Dohod"
| "type_value EXPENSE = Rashod"

record Category =
  name :: string
  type :: TransactionType

text \<open>
  A transaction. The amount is a Python float; its type is left abstract (\<open>'a\<close>) and the
  definitions below use only \<open>0\<close>, \<open>+\<close> and \<open>-\<close> on it, with no algebraic law assumed.
  \<open>date\<close> and \<open>description\<close> are annotated \<open>str\<close> in the source, but \<open>load_from_file\<close> stores
  whatever \<open>csv.DictReader\<close> hands it, which can be Python's \<open>None\<close>: \<open>None\<close> here is
  that value, \<open>Some s\<close> a string.
\<close>

record 'a Transaction =
  amount :: 'a
  category :: Category
  date :: "string option"
  description :: "string option"

section \<open>The csv module and text files, as far as the code uses them\<close>

abbreviation LF :: char where "LF \<equiv> CHR 0x0A"
abbreviation CR :: char where "CR \<equiv> CHR 0x0D"
abbreviation DQUOTE :: char where "DQUOTE \<equiv> CHR 0x22"
abbreviation COMMA :: char where "COMMA \<equiv> CHR 0x2C"

subsection \<open>csv.writer, dialect excel (QUOTE_MINIMAL, lineterminator CR LF)\<close>

definition csv_special :: "char \<Rightarrow> bool" where
  "csv_special c \<longleftrightarrow> c = COMMA \<or> c = DQUOTE \<or> c = CR \<or> c = LF"

definition quote_field :: "string \<Rightarrow> string" where
  "quote_field s = DQUOTE # concat (map (\<lambda>c. if c = DQUOTE then [DQUOTE, DQUOTE] else [c]) s) @ [DQUOTE]"

definition join_append :: "string \<Rightarrow> string" where
  "join_append s = (if list_ex csv_special s then quote_field s else s)"

fun join_fields :: "string list \<Rightarrow> string" where
  "join_fields [] = []"
| "join_fields [f] = join_append f"
| "join_fields (f # g # fs) = join_append f @ COMMA # join_fields (g # fs)"

text \<open>A record made of one empty field is written as a pair of quotes.\<close>

definition row_text :: "string list \<Rightarrow> string" where
  "row_text row = (if row = [[]] then [DQUOTE, DQUOTE] else join_fields row)"

definition writerow :: "string list \<Rightarrow> string" where
  "writerow row = row_text row @ [CR, LF]"

subsection \<open>Reading a text file opened without \<open>newline=''\<close>\<close>

text \<open>
  \<open>open(filename, "r")\<close> reads in universal-newlines mode: CR LF and a lone CR both arrive
  as LF. Iterating over the file yields the lines, each with its LF.
\<close>

fun universal_newlines :: "string \<Rightarrow> string" where
  "universal_newlines [] = []"
| "universal_newlines [c] = [if c = CR then LF else c]"
| "universal_newlines (c # d # cs) =
     (if c = CR then (if d = LF then LF # universal_newlines cs else LF # universal_newlines (d # cs))
      else c # universal_newlines (d # cs))"

fun file_lines :: "string \<Rightarrow> string \<Rightarrow> string list" where
  "file_lines cur [] = (if cur = [] then [] else [cur])"
| "file_lines cur (c # cs) =
     (if c = LF then (cur @ [c]) # file_lines [] cs else file_lines (cur @ [c]) cs)"

subsection \<open>csv.reader, dialect excel, not strict\<close>

datatype ParserState =
  START_RECORD | START_FIELD | IN_FIELD | IN_QUOTED_FIELD | QUOTE_IN_QUOTED_FIELD | EAT_CRNL

record Reader =
  p_state :: ParserState
  p_field :: string
  p_fields :: "string list"

datatype exn = FileNotFoundError | OSError | KeyError string | ValueError | TypeError | CsvError

definition parse_reset :: Reader where
  "parse_reset = \<lparr>p_state = START_RECORD, p_field = [], p_fields = []\<rparr>"

definition parse_save_field :: "Reader \<Rightarrow> Reader" where
  "parse_save_field r = r\<lparr>p_fields := p_fields r @ [p_field r], p_field := []\<rparr>"

text \<open>
  The reader refuses a field longer than \<open>csv.field_size_limit()\<close>, 131072 characters by
  default: adding a character to a field that already holds that many raises \<open>csv.Error\<close>.
  The limit counts characters and the model holds UTF-8 bytes, so a byte that continues
  a character (\<open>10xxxxxx\<close>) is added without counting: \<open>py_len\<close> is Python's \<open>len\<close> of the
  string that the bytes encode.
\<close>

definition field_limit :: int where
  "field_limit = 131072"

definition utf8_continuation :: "char \<Rightarrow> bool" where
  "utf8_continuation c \<longleftrightarrow> digit7 c \<and> \<not> digit6 c"

definition py_len :: "string \<Rightarrow> int" where
  "py_len s = int (length (filter (\<lambda>c. \<not> utf8_continuation c) s))"

definition parse_add_char :: "Reader \<Rightarrow> char \<Rightarrow> exn + Reader" where
  "parse_add_char r c =
     (if \<not> utf8_continuation c \<and> field_limit \<le> py_len (p_field r) then Inl CsvError
      else Inr (r\<lparr>p_field := p_field r @ [c]\<rparr>))"

text \<open>A character is added and, if that went well, the parser moves to the given state.\<close>

definition add_char_then :: "Reader \<Rightarrow> char \<Rightarrow> ParserState \<Rightarrow> exn + Reader" where
  "add_char_then r c st =
     (case parse_add_char r c of Inl e \<Rightarrow> Inl e | Inr r' \<Rightarrow> Inr (r'\<lparr>p_state := st\<rparr>))"

text \<open>One character of a line. \<open>START_RECORD\<close> falls through to \<open>START_FIELD\<close> as in the C code.\<close>

fun parse_process_char :: "Reader \<Rightarrow> char \<Rightarrow> exn + Reader" where
  "parse_process_char r c =
     (case p_state r of
        START_RECORD \<Rightarrow>
          (if c = LF \<or> c = CR then Inr (r\<lparr>p_state := EAT_CRNL\<rparr>)
           else if c = DQUOTE then Inr (r\<lparr>p_state := IN_QUOTED_FIELD\<rparr>)
           else if c = COMMA then Inr ((parse_save_field r)\<lparr>p_state := START_FIELD\<rparr>)
           else add_char_then r c IN_FIELD)
      | START_FIELD \<Rightarrow>
          (if c = LF \<or> c = CR then Inr ((parse_save_field r)\<lparr>p_state := EAT_CRNL\<rparr>)
           else if c = DQUOTE then Inr (r\<lparr>p_state := IN_QUOTED_FIELD\<rparr>)
           else if c = COMMA then Inr (parse_save_field r)
           else add_char_then r c IN_FIELD)
      | IN_FIELD \<Rightarrow>
          (if c = LF \<or> c = CR then Inr ((parse_save_field r)\<lparr>p_state := EAT_CRNL\<rparr>)
           else if c = COMMA then Inr ((parse_save_field r)\<lparr>p_state := START_FIELD\<rparr>)
           else parse_add_char r c)
      | IN_QUOTED_FIELD \<Rightarrow>
          (if c = DQUOTE then Inr (r\<lparr>p_state := QUOTE_IN_QUOTED_FIELD\<rparr>)
           else parse_add_char r c)
      | QUOTE_IN_QUOTED_FIELD \<Rightarrow>
          (if c = DQUOTE then add_char_then r c IN_QUOTED_FIELD
           else if c = COMMA then Inr ((parse_save_field r)\<lparr>p_state := START_FIELD\<rparr>)
           else if c = LF \<or> c = CR then Inr ((parse_save_field r)\<lparr>p_state := EAT_CRNL\<rparr>)
           else add_char_then r c IN_FIELD)
      | EAT_CRNL \<Rightarrow>
          (if c = LF \<or> c = CR then Inr r else Inl CsvError))"

text \<open>The end-of-line step that the reader runs after the last character of each line.\<close>

fun parse_process_eol :: "Reader \<Rightarrow> Reader" where
  "parse_process_eol r =
     (case p_state r of
        START_RECORD \<Rightarrow> r
      | START_FIELD \<Rightarrow> (parse_save_field r)\<lparr>p_state := START_RECORD\<rparr>
      | IN_FIELD \<Rightarrow> (parse_save_field r)\<lparr>p_state := START_RECORD\<rparr>
      | IN_QUOTED_FIELD \<Rightarrow> r
      | QUOTE_IN_QUOTED_FIELD \<Rightarrow> (parse_save_field r)\<lparr>p_state := START_RECORD\<rparr>
      | EAT_CRNL \<Rightarrow> r\<lparr>p_state := START_RECORD\<rparr>)"

fun parse_line :: "Reader \<Rightarrow> string \<Rightarrow> exn + Reader" where
  "parse_line r [] = Inr (parse_process_eol r)"
| "parse_line r (c # cs) =
     (case parse_process_char r c of Inl e \<Rightarrow> Inl e | Inr r' \<Rightarrow> parse_line r' cs)"

text \<open>
  The rows the reader yields, in order, and the error that ends the iteration if there is
  one. A record is complete when a line leaves the parser in \<open>START_RECORD\<close>; at the end of
  the file an unfinished quoted field is closed and its record yielded.
\<close>

fun csv_reader :: "Reader \<Rightarrow> string list \<Rightarrow> string list list \<times> exn option" where
  "csv_reader r [] =
     (if p_field r \<noteq> [] \<or> p_state r = IN_QUOTED_FIELD then ([p_fields (parse_save_field r)], None)
      else ([], None))"
| "csv_reader r (l # ls) =
     (case parse_line r l of
        Inl e \<Rightarrow> ([], Some e)
      | Inr r' \<Rightarrow>
          (if p_state r' = START_RECORD
           then (case csv_reader parse_reset ls of (rows, e) \<Rightarrow> (p_fields r' # rows, e))
           else csv_reader r' ls))"

subsection \<open>csv.DictReader\<close>

text \<open>
  A row of the DictReader maps each field name to a string, or to Python's \<open>None\<close> (the
  \<open>restval\<close>) where the record is shorter than the header. Surplus fields go under the key
  \<open>None\<close>, which no string key reaches. A later duplicate of a field name wins.
\<close>

type_synonym dict_row = "string \<rightharpoonup> string option"

fun dict_zip :: "string list \<Rightarrow> string list \<Rightarrow> dict_row \<Rightarrow> dict_row" where
  "dict_zip [] vs d = d"
| "dict_zip (k # ks) [] d = dict_zip ks [] (d(k \<mapsto> None))"
| "dict_zip (k # ks) (v # vs) d = dict_zip ks vs (d(k \<mapsto> Some v))"

definition DictReader :: "string list list \<times> exn option \<Rightarrow> dict_row list \<times> exn option" where
  "DictReader res =
     (case res of
        ([], e) \<Rightarrow> ([], e)
      | (fieldnames # rows, e) \<Rightarrow>
          (map (\<lambda>row. dict_zip fieldnames row Map.empty) (filter (\<lambda>row. row \<noteq> []) rows), e))"

section \<open>The file system\<close>

text \<open>
  The world outside the process: the files by path, and for each path what can go wrong when
  it is written. A file is held as the text that \<open>open(..., encoding="utf-8")\<close> decodes from
  it; files whose bytes are not UTF-8, on which reading raises \<open>UnicodeDecodeError\<close>, are not
  among the files of a world, and nothing below speaks about them. \<open>OpenFails\<close> is a refused \<open>open\<close> (permissions): the file is left as it was.
  \<open>DiskFull n\<close> is a disk with room for \<open>n\<close> bytes of this file: a longer content is cut
  there and the write fails. Both failures raise \<open>OSError\<close>. \<open>write_log\<close> records every
  attempt to open a file for writing.
\<close>

datatype write_fault = NoFault | OpenFails | DiskFull nat

record world =
  files :: "string \<rightharpoonup> string"
  fault :: "string \<Rightarrow> write_fault"
  write_log :: "string list"

definition write_text :: "world \<Rightarrow> string \<Rightarrow> string \<Rightarrow> exn option \<times> world" where
  "write_text w path content =
     (let w' = w\<lparr>write_log := write_log w @ [path]\<rparr> in
      case fault w path of
        NoFault \<Rightarrow> (None, w'\<lparr>files := (files w)(path \<mapsto> content)\<rparr>)
      | OpenFails \<Rightarrow> (Some OSError, w')
      | DiskFull n \<Rightarrow>
          (if length content \<le> n then (None, w'\<lparr>files := (files w)(path \<mapsto> content)\<rparr>)
           else (Some OSError, w'\<lparr>files := (files w)(path \<mapsto> take n content)\<rparr>)))"

definition write_fails :: "world \<Rightarrow> string \<Rightarrow> string \<Rightarrow> bool" where
  "write_fails w path content =
     (case fault w path of NoFault \<Rightarrow> False | OpenFails \<Rightarrow> True | DiskFull n \<Rightarrow> n < length content)"

definition read_text :: "world \<Rightarrow> string \<Rightarrow> exn + string" where
  "read_text w path = (case files w path of None \<Rightarrow> Inl FileNotFoundError | Some content \<Rightarrow> Inr content)"

section \<open>FinanceManager (finance_classes.py, lines 43-144)\<close>

record 'a FinanceManager =
  filename :: string
  transactions :: "'a Transaction list"
  categories :: "Category list"

definition Zarplata :: string where
  "Zarplata = [CHR 0xD0, CHR 0x97, CHR 0xD0, CHR 0xB0, CHR 0xD1, CHR 0x80, CHR 0xD0, CHR 0xBF,
               CHR 0xD0, CHR 0xBB, CHR 0xD0, CHR 0xB0, CHR 0xD1, CHR 0x82, CHR 0xD0, CHR 0xB0]"

definition Investitsii :: string where
  "Investitsii = [CHR 0xD0, CHR 0x98, CHR 0xD0, CHR 0xBD, CHR 0xD0, CHR 0xB2, CHR 0xD0, CHR 0xB5,
                  CHR 0xD1, CHR 0x81, CHR 0xD1, CHR 0x82, CHR 0xD0, CHR 0xB8, CHR 0xD1, CHR 0x86,
                  CHR 0xD0, CHR 0xB8, CHR 0xD0, CHR 0xB8]"

definition Produkty :: string where
  "Produkty = [CHR 0xD0, CHR 0x9F, CHR 0xD1, CHR 0x80, CHR 0xD0, CHR 0xBE, CHR 0xD0, CHR 0xB4,
               CHR 0xD1, CHR 0x83, CHR 0xD0, CHR 0xBA, CHR 0xD1, CHR 0x82, CHR 0xD1, CHR 0x8B]"

definition Transport_ru :: string where
  "Transport_ru = [CHR 0xD0, CHR 0xA2, CHR 0xD1, CHR 0x80, CHR 0xD0, CHR 0xB0, CHR 0xD0, CHR 0xBD,
                   CHR 0xD1, CHR 0x81, CHR 0xD0, CHR 0xBF, CHR 0xD0, CHR 0xBE, CHR 0xD1, CHR 0x80,
                   CHR 0xD1, CHR 0x82]"

definition Razvlecheniya :: string where
  "Razvlecheniya = [CHR 0xD0, CHR 0xA0, CHR 0xD0, CHR 0xB0, CHR 0xD0, CHR 0xB7, CHR 0xD0, CHR 0xB2,
                    CHR 0xD0, CHR 0xBB, CHR 0xD0, CHR 0xB5, CHR 0xD1, CHR 0x87, CHR 0xD0, CHR 0xB5,
                    CHR 0xD0, CHR 0xBD, CHR 0xD0, CHR 0xB8, CHR 0xD1, CHR 0x8F]"

text \<open>The preset categories of \<open>__init__\<close> (lines 57-63).\<close>

definition preset_categories :: "Category list" where
  "preset_categories =
     [\<lparr>name = Zarplata, type = INCOME\<rparr>,
      \<lparr>name = Investitsii, type = INCOME\<rparr>,
      \<lparr>name = Produkty, type = EXPENSE\<rparr>,
      \<lparr>name = Transport_ru, type = EXPENSE\<rparr>,
      \<lparr>name = Razvlecheniya, type = EXPENSE\<rparr>]"

subsection \<open>save_to_file (lines 108-120)\<close>

text \<open>
  The writer turns a float into text with \<open>str\<close>, here the parameter \<open>str_float\<close>, and writes
  \<open>None\<close> as the empty field.
\<close>

definition csv_header :: "string list" where
  "csv_header = [''Amount'', ''Category'', ''Type'', ''Date'', ''Description'']"

definition str_or_none :: "string option \<Rightarrow> string" where
  "str_or_none v = (case v of None \<Rightarrow> [] | Some s \<Rightarrow> s)"

definition transaction_row :: "('a \<Rightarrow> string) \<Rightarrow> 'a Transaction \<Rightarrow> string list" where
  "transaction_row str_float t =
     [str_float (amount t), name (category t), type_value (type (category t)),
      str_or_none (date t), str_or_none (description t)]"

definition file_content :: "('a \<Rightarrow> string) \<Rightarrow> 'a Transaction list \<Rightarrow> string" where
  "file_content str_float ts = concat (map writerow (csv_header # map (transaction_row str_float) ts))"

definition save_to_file :: "('a \<Rightarrow> string) \<Rightarrow> 'a FinanceManager \<Rightarrow> world \<Rightarrow> exn option \<times> world" where
  "save_to_file str_float m w = write_text w (filename m) (file_content str_float (transactions m))"

subsection \<open>add_transaction (lines 68-71) and delete_transaction (lines 73-77)\<close>

text \<open>
  A method returns the exception it raises, if any, with the object and the world as it
  leaves them: a raise does not undo what was done before it.
\<close>

definition add_transaction ::
  "('a \<Rightarrow> string) \<Rightarrow> 'a FinanceManager \<Rightarrow> 'a Transaction \<Rightarrow> world \<Rightarrow> exn option \<times> 'a FinanceManager \<times> world" where
  "add_transaction str_float m t w =
     (let m' = m\<lparr>transactions := transactions m @ [t]\<rparr>;
          (e, w') = save_to_file str_float m' w
      in (e, m', w'))"

text \<open>\<open>del xs[i]\<close> for an index that the guard has checked.\<close>

fun list_del :: "'b list \<Rightarrow> nat \<Rightarrow> 'b list" where
  "list_del [] i = []"
| "list_del (x # xs) 0 = xs"
| "list_del (x # xs) (Suc i) = x # list_del xs i"

definition delete_transaction ::
  "('a \<Rightarrow> string) \<Rightarrow> 'a FinanceManager \<Rightarrow> int \<Rightarrow> world \<Rightarrow> exn option \<times> 'a FinanceManager \<times> world" where
  "delete_transaction str_float m index w =
     (if 0 \<le> index \<and> index < int (length (transactions m)) then
        (let m' = m\<lparr>transactions := list_del (transactions m) (nat index)\<rparr>;
             (e, w') = save_to_file str_float m' w
         in (e, m', w'))
      else (None, m, w))"

subsection \<open>get_balance (lines 79-89) and get_category_summary (lines 91-106)\<close>

text \<open>
  The builtin \<open>sum\<close>: from 0, adding the items from left to right. (From CPython 3.12 on,
  \<open>sum\<close> also carries a correction term for the rounding of floats. On every list of floats
  that is summed in an example below, the two ways of summing give the same float.)
\<close>

definition py_sum :: "'a::{zero,plus} list \<Rightarrow> 'a" where
  "py_sum xs = foldl (+) 0 xs"

definition get_balance :: "'a::{zero,plus,minus} FinanceManager \<Rightarrow> 'a" where
  "get_balance m =
     (let income = py_sum (map amount (filter (\<lambda>t. type (category t) = INCOME) (transactions m)));
          expenses = py_sum (map amount (filter (\<lambda>t. type (category t) = EXPENSE) (transactions m)))
      in income - expenses)"

text \<open>
  A Python dict is an association list with distinct keys in insertion order:
  \<open>dict_get\<close> is \<open>d[k]\<close> (\<open>None\<close> where Python raises \<open>KeyError\<close>), \<open>dict_set\<close> is \<open>d[k] = v\<close>.
\<close>

type_synonym ('k, 'v) dict = "('k \<times> 'v) list"

definition dict_get :: "('k, 'v) dict \<Rightarrow> 'k \<Rightarrow> 'v option" where
  "dict_get d k = map_of d k"

fun dict_set :: "('k, 'v) dict \<Rightarrow> 'k \<Rightarrow> 'v \<Rightarrow> ('k, 'v) dict" where
  "dict_set [] k v = [(k, v)]"
| "dict_set ((k', v') # d) k v = (if k' = k then (k, v) # d else (k', v') # dict_set d k v)"

text \<open>
  The loop body. After the membership test the key is present, so the two lookups of
  \<open>summary[cat_name]\<close> cannot raise; \<open>the\<close> is applied to a \<open>Some\<close>.
\<close>

definition summary_step :: "(string, 'a::{zero,plus,minus}) dict \<Rightarrow> 'a Transaction \<Rightarrow> (string, 'a) dict" where
  "summary_step summary transaction =
     (let cat_name = name (category transaction);
          summary1 = (if dict_get summary cat_name = None then dict_set summary cat_name 0 else summary)
      in if type (category transaction) = INCOME
         then dict_set summary1 cat_name (the (dict_get summary1 cat_name) + amount transaction)
         else dict_set summary1 cat_name (the (dict_get summary1 cat_name) - amount transaction))"

definition get_category_summary :: "'a::{zero,plus,minus} FinanceManager \<Rightarrow> (string, 'a) dict" where
  "get_category_summary m = foldl summary_step [] (transactions m)"

subsection \<open>load_from_file (lines 122-144) and the constructor (lines 52-66)\<close>

text \<open>
  \<open>row[key]\<close> raises \<open>KeyError\<close> for a missing key; \<open>float\<close>, here the parameter \<open>float_of\<close>,
  raises \<open>TypeError\<close> on \<open>None\<close> and \<open>ValueError\<close> on text that is not a number.
  The keyword arguments of \<open>Transaction(...)\<close> are evaluated in the order written.
\<close>

definition find_category :: "Category list \<Rightarrow> string option \<Rightarrow> Category option" where
  "find_category cats v = find (\<lambda>cat. Some (name cat) = v) cats"

definition load_row ::
  "(string \<Rightarrow> 'a option) \<Rightarrow> Category list \<Rightarrow> dict_row \<Rightarrow> exn + 'a Transaction option" where
  "load_row float_of cats row =
     (case row ''Category'' of
        None \<Rightarrow> Inl (KeyError ''Category'')
      | Some cat_name \<Rightarrow>
          (case find_category cats cat_name of
             None \<Rightarrow> Inr None
           | Some cat \<Rightarrow>
               (case row ''Amount'' of
                  None \<Rightarrow> Inl (KeyError ''Amount'')
                | Some None \<Rightarrow> Inl TypeError
                | Some (Some text) \<Rightarrow>
                    (case float_of text of
                       None \<Rightarrow> Inl ValueError
                     | Some a \<Rightarrow>
                         (case row ''Date'' of
                            None \<Rightarrow> Inl (KeyError ''Date'')
                          | Some d \<Rightarrow>
                              Inr (Some \<lparr>amount = a, category = cat, date = d,
                                         description =
                                           (case row ''Description'' of None \<Rightarrow> Some [] | Some v \<Rightarrow> v)\<rparr>))))))"

text \<open>The loop over the rows: each loaded transaction is appended before the next row is read.\<close>

fun load_rows ::
  "(string \<Rightarrow> 'a option) \<Rightarrow> Category list \<Rightarrow> dict_row list \<Rightarrow> 'a Transaction list
   \<Rightarrow> exn option \<times> 'a Transaction list" where
  "load_rows float_of cats [] ts = (None, ts)"
| "load_rows float_of cats (row # rows) ts =
     (case load_row float_of cats row of
        Inl e \<Rightarrow> (Some e, ts)
      | Inr None \<Rightarrow> load_rows float_of cats rows ts
      | Inr (Some t) \<Rightarrow> load_rows float_of cats rows (ts @ [t]))"

definition read_dict_rows :: "string \<Rightarrow> dict_row list \<times> exn option" where
  "read_dict_rows content = DictReader (csv_reader parse_reset (file_lines [] (universal_newlines content)))"

definition load_from_file ::
  "(string \<Rightarrow> 'a option) \<Rightarrow> 'a FinanceManager \<Rightarrow> world \<Rightarrow> exn option \<times> 'a FinanceManager" where
  "load_from_file float_of m w =
     (case read_text w (filename m) of
        Inl e \<Rightarrow> (if e = FileNotFoundError then (None, m\<lparr>transactions := []\<rparr>) else (Some e, m))
      | Inr content \<Rightarrow>
          (case read_dict_rows content of
             (rows, reader_error) \<Rightarrow>
               (case load_rows float_of (categories m) rows (transactions m) of
                  (Some e, ts) \<Rightarrow> (Some e, m\<lparr>transactions := ts\<rparr>)
                | (None, ts) \<Rightarrow> (reader_error, m\<lparr>transactions := ts\<rparr>))))"

text \<open>The constructor: an exception out of \<open>load_from_file\<close> leaves no object.\<close>

definition FinanceManager_init ::
  "(string \<Rightarrow> 'a option) \<Rightarrow> string \<Rightarrow> world \<Rightarrow> exn + 'a FinanceManager" where
  "FinanceManager_init float_of fname w =
     (case load_from_file float_of \<lparr>filename = fname, transactions = [], categories = preset_categories\<rparr> w of
        (None, m) \<Rightarrow> Inr m
      | (Some e, m) \<Rightarrow> Inl e)"

section \<open>Python floats with integer values\<close>

text \<open>
  A Python float is an IEEE-754 binary64 number: 53 significant bits, and every result
  rounded to the nearest such number, to the one with the even significand in a tie.
  \<open>Dbl n\<close> is the float whose value is the integer \<open>n\<close>. The sum and the difference of two
  such floats are again of this kind: the exact integer result, rounded to 53 bits by
  \<open>round_to_double\<close>. (A result of \<open>2 ^ 1024\<close> or more would be \<open>inf\<close>; no example comes near.)
\<close>

function bit_length :: "int \<Rightarrow> nat" where
  "bit_length x = (if x \<le> 0 then 0 else Suc (bit_length (x div 2)))"
  by pat_completeness auto
termination
  by (relation "measure nat") auto

declare bit_length.simps [simp del]

definition round_to_double :: "int \<Rightarrow> int" where
  "round_to_double x =
     (let a = \<bar>x\<bar>; k = bit_length a - 53 in
      if k = 0 then x
      else (let q = a div 2 ^ k; r = a mod 2 ^ k; half = 2 ^ (k - 1);
                m = (if r < half \<or> (r = half \<and> even q) then q else q + 1)
            in sgn x * (m * 2 ^ k)))"

datatype double = Dbl int

instantiation double :: "{zero,plus,minus}"
begin

definition zero_double :: double where
  "zero_double = Dbl 0"

fun plus_double :: "double \<Rightarrow> double \<Rightarrow> double" where
  "plus_double (Dbl x) (Dbl y) = Dbl (round_to_double (x + y))"

fun minus_double :: "double \<Rightarrow> double \<Rightarrow> double" where
  "minus_double (Dbl x) (Dbl y) = Dbl (round_to_double (x - y))"

instance ..

end

section \<open>Notions used to state the properties\<close>

text \<open>
  The running total of a category name: from 0, over the transactions with that name in
  insertion order, the amount added for an income and subtracted for an expense.
\<close>

definition running_total :: "string \<Rightarrow> 'a::{zero,plus,minus} Transaction list \<Rightarrow> 'a" where
  "running_total n ts =
     foldl (\<lambda>acc t. if type (category t) = INCOME then acc + amount t else acc - amount t) 0
       (filter (\<lambda>t. name (category t) = n) ts)"

text \<open>The amount of a transaction with its sign: positive for an income, negative for an expense.\<close>

definition signed_amount :: "'a::uminus Transaction \<Rightarrow> 'a" where
  "signed_amount t = (if type (category t) = INCOME then amount t else - amount t)"

text \<open>A row whose \<open>Category\<close> field names no category of the catalog.\<close>

definition category_unmatched :: "Category list \<Rightarrow> dict_row \<Rightarrow> bool" where
  "category_unmatched cats row =
     (case row ''Category'' of None \<Rightarrow> False | Some v \<Rightarrow> find_category cats v = None)"

subsection \<open>Concrete values for the examples\<close>

text \<open>
  \<open>str\<close> and \<open>float\<close> on the three amounts of the examples, where Python gives
  \<open>str(30000.0) = '30000.0'\<close>, \<open>float('30000.0') = 30000.0\<close> and so on, and \<open>float\<close> raises
  \<open>ValueError\<close> on \<open>'abc'\<close>. The amounts are whole numbers, written as integers.
\<close>

definition float_of_sample :: "string \<Rightarrow> int option" where
  "float_of_sample = map_of [(''30000.0'', 30000), (''5000.0'', 5000), (''100.0'', 100)]"

definition str_float_sample :: "int \<Rightarrow> string" where
  "str_float_sample a = (if a = 30000 then ''30000.0'' else if a = 5000 then ''5000.0'' else ''100.0'')"

definition empty_world :: world where
  "empty_world = \<lparr>files = Map.empty, fault = (\<lambda>path. NoFault), write_log = []\<rparr>"

definition salary :: Category where
  "salary = \<lparr>name = Zarplata, type = INCOME\<rparr>"

definition groceries :: Category where
  "groceries = \<lparr>name = Produkty, type = EXPENSE\<rparr>"

definition tx_salary :: "int Transaction" where
  "tx_salary = \<lparr>amount = 30000, category = salary, date = Some ''2024-01-05'', description = Some []\<rparr>"

definition tx_milk :: "int Transaction" where
  "tx_milk = \<lparr>amount = 5000, category = groceries, date = Some ''2024-01-06'', description = Some ''milk''\<rparr>"

definition new_manager :: "int FinanceManager" where
  "new_manager = \<lparr>filename = ''transactions.csv'', transactions = [], categories = preset_categories\<rparr>"

definition readonly_world :: "int Transaction list \<Rightarrow> world" where
  "readonly_world ts =
     \<lparr>files = [''transactions.csv'' \<mapsto> file_content str_float_sample ts],
      fault = (\<lambda>path. OpenFails), write_log = []\<rparr>"

definition world_with_file :: "string \<Rightarrow> world" where
  "world_with_file content =
     \<lparr>files = [''transactions.csv'' \<mapsto> content], fault = (\<lambda>path. NoFault), write_log = []\<rparr>"

text \<open>A file whose only row has a catalog category and an amount that is not a number.\<close>

definition bad_amount_file :: string where
  "bad_amount_file =
     writerow csv_header @ writerow [''abc'', Zarplata, Dohod, ''2024-01-05'', ''x'']"

text \<open>A file whose only row stops after the date: it has no fifth field.\<close>

definition short_row_file :: string where
  "short_row_file = writerow csv_header @ writerow [''100.0'', Zarplata, Dohod, ''2024-01-05'']"

text \<open>A transaction whose description holds a carriage return.\<close>

definition tx_cr :: "int Transaction" where
  "tx_cr = \<lparr>amount = 30000, category = salary, date = Some ''2024-01-05'',
            description = Some [CHR ''a'', CR, CHR ''b'']\<rparr>"

text \<open>Three rows as the DictReader hands them over, under the header that \<open>save_to_file\<close> writes.\<close>

definition row_unknown_category :: dict_row where
  "row_unknown_category = dict_zip csv_header [''abc'', ''Salary'', Dohod, ''2024-01-05'', ''x''] Map.empty"

definition row_salary :: dict_row where
  "row_salary = dict_zip csv_header [''30000.0'', Zarplata, Dohod, ''2024-01-05'', []] Map.empty"

definition row_bad_amount :: dict_row where
  "row_bad_amount = dict_zip csv_header [''abc'', Zarplata, Dohod, ''2024-01-05'', ''x''] Map.empty"

text \<open>
  Float amounts for the examples of rounding. Each is a float: it has at most 53
  significant bits.
\<close>

definition investments :: Category where
  "investments = \<lparr>name = Investitsii, type = INCOME\<rparr>"

definition tx_float :: "int \<Rightarrow> Category \<Rightarrow> double Transaction" where
  "tx_float n cat = \<lparr>amount = Dbl n, category = cat, date = Some ''2024-01-05'', description = Some []\<rparr>"

definition float_manager :: "double Transaction list \<Rightarrow> double FinanceManager" where
  "float_manager ts = \<lparr>filename = ''transactions.csv'', transactions = ts, categories = preset_categories\<rparr>"

section \<open>An end-to-end run\<close>

text \<open>
  On an empty file system: add a salary of 30000, then groceries for 5000. The balance is
  25000 and the summary has the two totals, in the order of first appearance. Deleting
  index 1 leaves the salary alone, and a fresh store constructed on the file holds that
  one transaction.
\<close>

lemma end_to_end_run:
  "(case add_transaction str_float_sample new_manager tx_salary empty_world of
      (e1, m1, w1) \<Rightarrow>
        (case add_transaction str_float_sample m1 tx_milk w1 of
           (e2, m2, w2) \<Rightarrow>
             e1 = None \<and> e2 = None \<and> get_balance m2 = 25000 \<and>
             get_category_summary m2 = [(Zarplata, 30000), (Produkty, - 5000)] \<and>
             (case delete_transaction str_float_sample m2 1 w2 of
                (e3, m3, w3) \<Rightarrow>
                  e3 = None \<and> get_balance m3 = 30000 \<and>
                  get_category_summary m3 = [(Zarplata, 30000)] \<and>
                  FinanceManager_init float_of_sample ''transactions.csv'' w3 =
                    Inr (new_manager\<lparr>transactions := [tx_salary]\<rparr>))))"
  by code_simp

section \<open>The category summary\<close>

lemma dict_get_dict_set: "dict_get (dict_set d k v) k' = (if k' = k then Some v else dict_get d k')"
  by (induction d) (auto simp: dict_get_def)

lemma set_keys_dict_set: "set (map fst (dict_set d k v)) = insert k (set (map fst d))"
  by (induction d) (fastforce split: if_splits)+

lemma distinct_dict_set: "distinct (map fst d) \<Longrightarrow> distinct (map fst (dict_set d k v))"
proof (induction d)
  case Nil
  then show ?case by simp
next
  case (Cons p d)
  obtain k' v' where p: "p = (k', v')" by (cases p)
  from Cons have "distinct (map fst (dict_set d k v))" by simp
  moreover from Cons.prems p have "k' \<notin> set (map fst d)" by simp
  ultimately show ?case
    using Cons.prems p by (auto simp del: set_map simp: set_keys_dict_set)
qed

lemma dict_get_None_iff: "dict_get d k = None \<longleftrightarrow> k \<notin> set (map fst d)"
  by (simp add: dict_get_def map_of_eq_None_iff)

lemma summary_step_lookup_defined:
  "dict_get (if dict_get summary k = None then dict_set summary k v else summary) k \<noteq> None"
  by (simp add: dict_get_dict_set)

lemma dict_get_summary_step:
  "dict_get (summary_step d t) n =
     (if name (category t) = n
      then Some (if type (category t) = INCOME
                 then (case dict_get d n of None \<Rightarrow> 0 | Some v \<Rightarrow> v) + amount t
                 else (case dict_get d n of None \<Rightarrow> 0 | Some v \<Rightarrow> v) - amount t)
      else dict_get d n)"
  by (auto simp: summary_step_def Let_def dict_get_dict_set split: option.splits)

lemma distinct_summary_step: "distinct (map fst d) \<Longrightarrow> distinct (map fst (summary_step d t))"
  by (simp add: summary_step_def Let_def distinct_dict_set)

lemma distinct_foldl_summary_step:
  "distinct (map fst d) \<Longrightarrow> distinct (map fst (foldl summary_step d ts))"
  by (induction ts arbitrary: d) (simp_all add: distinct_summary_step)

lemma dict_get_foldl_summary_step:
  "dict_get (foldl summary_step d ts) n =
     (if filter (\<lambda>t. name (category t) = n) ts = [] then dict_get d n
      else Some (foldl (\<lambda>acc t. if type (category t) = INCOME then acc + amount t else acc - amount t)
                   (case dict_get d n of None \<Rightarrow> 0 | Some v \<Rightarrow> v)
                   (filter (\<lambda>t. name (category t) = n) ts)))"
proof (induction ts arbitrary: d)
  case Nil
  then show ?case by simp
next
  case (Cons t ts)
  show ?case
  proof (cases "name (category t) = n")
    case True
    then show ?thesis by (simp add: Cons.IH dict_get_summary_step)
  next
    case False
    then show ?thesis by (simp add: Cons.IH dict_get_summary_step)
  qed
qed

text \<open>
  C3. For every transaction sequence and every category name, \<open>get_category_summary\<close> maps
  the name to the running total of its transactions (from 0, the amount added when the
  transaction's category is an income, subtracted when it is an expense, in insertion
  order); a name with no transaction is not a key of the result, and no key occurs twice.
  No law of arithmetic is used, so this holds for Python floats as it stands.
\<close>

theorem get_category_summary_correct:
  "(n \<in> set (map (\<lambda>t. name (category t)) (transactions m)) \<longrightarrow>
      dict_get (get_category_summary m) n = Some (running_total n (transactions m))) \<and>
   (n \<notin> set (map (\<lambda>t. name (category t)) (transactions m)) \<longrightarrow>
      dict_get (get_category_summary m) n = None \<and> n \<notin> set (map fst (get_category_summary m))) \<and>
   distinct (map fst (get_category_summary m))"
proof -
  have e: "(filter (\<lambda>t. name (category t) = n) (transactions m) = []) \<longleftrightarrow>
           n \<notin> set (map (\<lambda>t. name (category t)) (transactions m))"
    by (auto simp: filter_empty_conv)
  have g: "dict_get (get_category_summary m) n =
     (if n \<in> set (map (\<lambda>t. name (category t)) (transactions m))
      then Some (running_total n (transactions m)) else None)"
    unfolding get_category_summary_def running_total_def dict_get_foldl_summary_step e
    by (simp add: dict_get_def)
  have d: "distinct (map fst (get_category_summary m))"
    unfolding get_category_summary_def by (rule distinct_foldl_summary_step) simp
  have n: "dict_get (get_category_summary m) n = None \<Longrightarrow> n \<notin> set (map fst (get_category_summary m))"
    using dict_get_None_iff [of "get_category_summary m" n] by simp
  from g d n show ?thesis by (simp del: set_map)
qed

theorem get_category_summary_correct_witness:
  "Zarplata \<in> set (map (\<lambda>t. name (category t)) (transactions (new_manager\<lparr>transactions := [tx_salary, tx_milk]\<rparr>))) \<and>
   Transport_ru \<notin> set (map (\<lambda>t. name (category t)) (transactions (new_manager\<lparr>transactions := [tx_salary, tx_milk]\<rparr>))) \<and>
   dict_get (get_category_summary (new_manager\<lparr>transactions := [tx_salary, tx_milk]\<rparr>)) Zarplata = Some 30000 \<and>
   dict_get (get_category_summary (new_manager\<lparr>transactions := [tx_salary, tx_milk]\<rparr>)) Transport_ru = None"
proof -
  let ?m = "new_manager\<lparr>transactions := [tx_salary, tx_milk]\<rparr>"
  have a: "Zarplata \<in> set (map (\<lambda>t. name (category t)) (transactions ?m))"
    by (simp add: tx_salary_def salary_def)
  have b: "Transport_ru \<notin> set (map (\<lambda>t. name (category t)) (transactions ?m))"
    by (simp add: tx_salary_def tx_milk_def salary_def groceries_def Zarplata_def Produkty_def Transport_ru_def)
  have c: "running_total Zarplata (transactions ?m) = 30000"
    by (simp add: running_total_def tx_salary_def tx_milk_def salary_def groceries_def
        Zarplata_def Produkty_def)
  from get_category_summary_correct [of Zarplata ?m] a
  have "dict_get (get_category_summary ?m) Zarplata = Some (running_total Zarplata (transactions ?m))"
    by blast
  moreover from get_category_summary_correct [of Transport_ru ?m] b
  have "dict_get (get_category_summary ?m) Transport_ru = None"
    by blast
  ultimately show ?thesis using a b c by simp
qed

section \<open>Deleting by index\<close>

lemma list_del_take_drop: "i < length xs \<Longrightarrow> list_del xs i = take i xs @ drop (Suc i) xs"
  by (induction xs i rule: list_del.induct) simp_all

lemma save_to_file_log: "write_log (snd (save_to_file sf m w)) = write_log w @ [filename m]"
  by (simp add: save_to_file_def write_text_def Let_def split: write_fault.splits)

lemma save_to_file_effect:
  assumes "save_to_file sf m w = (e, w')"
  shows "write_log w' = write_log w @ [filename m] \<and>
         (\<not> write_fails w (filename m) (file_content sf (transactions m)) \<longrightarrow>
            e = None \<and> files w' (filename m) = Some (file_content sf (transactions m))) \<and>
         (write_fails w (filename m) (file_content sf (transactions m)) \<longrightarrow> e = Some OSError) \<and>
         (\<forall>path. path \<noteq> filename m \<longrightarrow> files w' path = files w path)"
  using assms
  by (auto simp: save_to_file_def write_text_def write_fails_def Let_def split: write_fault.splits if_splits)

text \<open>
  C4. For every store, world and integer index: if the index is outside
  \<open>[0, length)\<close>, \<open>delete_transaction\<close> raises nothing and returns the store and the world as
  they were (the transaction list, the files and the log of write attempts are unchanged,
  so no save took place). If the index is inside, the list loses exactly the element at
  that position and the shortened list is saved once: the file is opened for writing
  once; unless that write fails, nothing is raised and the backing file holds the saved
  form of the shortened list; if it fails, its \<open>OSError\<close> is raised; no other file changes.
\<close>

theorem delete_transaction_bounds:
  "(\<not> (0 \<le> index \<and> index < int (length (transactions m))) \<longrightarrow>
      delete_transaction sf m index w = (None, m, w)) \<and>
   (0 \<le> index \<and> index < int (length (transactions m)) \<longrightarrow>
      (\<exists>e w'. delete_transaction sf m index w =
                (e, m\<lparr>transactions := take (nat index) (transactions m) @ drop (Suc (nat index)) (transactions m)\<rparr>, w') \<and>
              (e, w') = save_to_file sf
                (m\<lparr>transactions := take (nat index) (transactions m) @ drop (Suc (nat index)) (transactions m)\<rparr>) w \<and>
              write_log w' = write_log w @ [filename m] \<and>
              (\<not> write_fails w (filename m)
                   (file_content sf (take (nat index) (transactions m) @ drop (Suc (nat index)) (transactions m))) \<longrightarrow>
                 e = None \<and>
                 files w' (filename m) =
                   Some (file_content sf (take (nat index) (transactions m) @ drop (Suc (nat index)) (transactions m)))) \<and>
              (write_fails w (filename m)
                   (file_content sf (take (nat index) (transactions m) @ drop (Suc (nat index)) (transactions m))) \<longrightarrow>
                 e = Some OSError) \<and>
              (\<forall>path. path \<noteq> filename m \<longrightarrow> files w' path = files w path)))"
proof (cases "0 \<le> index \<and> index < int (length (transactions m))")
  case False
  then have "delete_transaction sf m index w = (None, m, w)"
    unfolding delete_transaction_def by (simp only: if_False)
  with False show ?thesis by blast
next
  case True
  then have i: "nat index < length (transactions m)" by linarith
  let ?ts = "take (nat index) (transactions m) @ drop (Suc (nat index)) (transactions m)"
  let ?m' = "m\<lparr>transactions := ?ts\<rparr>"
  obtain e w' where s: "save_to_file sf ?m' w = (e, w')" by (cases "save_to_file sf ?m' w")
  have d: "delete_transaction sf m index w = (e, ?m', w')"
    using True s by (simp add: delete_transaction_def list_del_take_drop [OF i])
  from save_to_file_effect [OF s]
  have "write_log w' = write_log w @ [filename m] \<and>
         (\<not> write_fails w (filename m) (file_content sf ?ts) \<longrightarrow>
            e = None \<and> files w' (filename m) = Some (file_content sf ?ts)) \<and>
         (write_fails w (filename m) (file_content sf ?ts) \<longrightarrow> e = Some OSError) \<and>
         (\<forall>path. path \<noteq> filename m \<longrightarrow> files w' path = files w path)"
    by simp
  with d s True show ?thesis by auto
qed

theorem delete_transaction_bounds_witness:
  "\<not> (0 \<le> (5::int) \<and> 5 < int (length (transactions (new_manager\<lparr>transactions := [tx_salary, tx_milk]\<rparr>)))) \<and>
   delete_transaction str_float_sample (new_manager\<lparr>transactions := [tx_salary, tx_milk]\<rparr>) 5 empty_world =
     (None, new_manager\<lparr>transactions := [tx_salary, tx_milk]\<rparr>, empty_world) \<and>
   delete_transaction str_float_sample (new_manager\<lparr>transactions := [tx_salary, tx_milk]\<rparr>) (- 1) empty_world =
     (None, new_manager\<lparr>transactions := [tx_salary, tx_milk]\<rparr>, empty_world) \<and>
   (0 \<le> (1::int) \<and> 1 < int (length (transactions (new_manager\<lparr>transactions := [tx_salary, tx_milk]\<rparr>)))) \<and>
   fst (snd (delete_transaction str_float_sample (new_manager\<lparr>transactions := [tx_salary, tx_milk]\<rparr>) 1 empty_world)) =
     new_manager\<lparr>transactions := [tx_salary]\<rparr> \<and>
   \<not> write_fails empty_world (filename (new_manager\<lparr>transactions := [tx_salary, tx_milk]\<rparr>))
       (file_content str_float_sample
          (take (nat 1) (transactions (new_manager\<lparr>transactions := [tx_salary, tx_milk]\<rparr>)) @
           drop (Suc (nat 1)) (transactions (new_manager\<lparr>transactions := [tx_salary, tx_milk]\<rparr>)))) \<and>
   fst (delete_transaction str_float_sample (new_manager\<lparr>transactions := [tx_salary, tx_milk]\<rparr>) 1 empty_world) = None \<and>
   files (snd (snd (delete_transaction str_float_sample (new_manager\<lparr>transactions := [tx_salary, tx_milk]\<rparr>) 1 empty_world)))
     ''transactions.csv'' = Some (file_content str_float_sample [tx_salary])"
proof -
  let ?m = "new_manager\<lparr>transactions := [tx_salary, tx_milk]\<rparr>"
  have a: "\<not> (0 \<le> (5::int) \<and> 5 < int (length (transactions ?m)))" by simp
  have b: "\<not> (0 \<le> (- 1::int) \<and> - 1 < int (length (transactions ?m)))" by simp
  have c: "0 \<le> (1::int) \<and> 1 < int (length (transactions ?m))" by simp
  have f: "\<not> write_fails empty_world (filename ?m)
       (file_content str_float_sample
          (take (nat 1) (transactions ?m) @ drop (Suc (nat 1)) (transactions ?m)))"
    by (simp add: write_fails_def empty_world_def)
  have n: "filename ?m = ''transactions.csv''" by (simp add: new_manager_def)
  from delete_transaction_bounds [of 5 ?m str_float_sample empty_world] a
  have "delete_transaction str_float_sample ?m 5 empty_world = (None, ?m, empty_world)" by blast
  moreover from delete_transaction_bounds [of "- 1" ?m str_float_sample empty_world] b
  have "delete_transaction str_float_sample ?m (- 1) empty_world = (None, ?m, empty_world)" by blast
  moreover from delete_transaction_bounds [of 1 ?m str_float_sample empty_world] c f
  obtain e w' where "delete_transaction str_float_sample ?m 1 empty_world =
      (e, ?m\<lparr>transactions := take (nat 1) (transactions ?m) @ drop (Suc (nat 1)) (transactions ?m)\<rparr>, w')"
    and "e = None"
    and "files w' (filename ?m) =
      Some (file_content str_float_sample (take (nat 1) (transactions ?m) @ drop (Suc (nat 1)) (transactions ?m)))"
    by blast
  then have "fst (snd (delete_transaction str_float_sample ?m 1 empty_world)) = new_manager\<lparr>transactions := [tx_salary]\<rparr> \<and>
    fst (delete_transaction str_float_sample ?m 1 empty_world) = None \<and>
    files (snd (snd (delete_transaction str_float_sample ?m 1 empty_world))) ''transactions.csv'' =
      Some (file_content str_float_sample [tx_salary])"
    using n by simp
  ultimately show ?thesis using a c f by simp
qed

section \<open>A store on a missing file\<close>

text \<open>
  C6. Constructing a store on a path where no file exists raises nothing and gives a store
  with no transactions, and \<open>get_balance\<close> on it is 0. The sums over no transactions are both
  Python's integer 0, so the only arithmetic fact used is \<open>0 - 0 = 0\<close>.
\<close>

theorem fresh_store_is_empty:
  fixes float_of :: "string \<Rightarrow> 'a::{zero,plus,minus} option"
  assumes "files w fname = None" and "(0::'a) - 0 = 0"
  shows "\<exists>m. FinanceManager_init float_of fname w = Inr m \<and> transactions m = [] \<and> get_balance m = 0"
  using assms
  by (simp add: FinanceManager_init_def load_from_file_def read_text_def get_balance_def py_sum_def)

theorem fresh_store_is_empty_witness:
  "files empty_world ''transactions.csv'' = None \<and> (0::int) - 0 = 0 \<and>
   (\<exists>m. FinanceManager_init float_of_sample ''transactions.csv'' empty_world = Inr m \<and>
        transactions m = [] \<and> get_balance m = 0)"
proof -
  have a: "files empty_world ''transactions.csv'' = None" by (simp add: empty_world_def)
  have b: "(0::int) - 0 = 0" by simp
  from fresh_store_is_empty [of empty_world "''transactions.csv''" float_of_sample, OF a b] a b
  show ?thesis by blast
qed

section \<open>A failed write\<close>

lemma writerow_not_Nil: "writerow row \<noteq> []"
  by (simp add: writerow_def)

lemma file_content_snoc:
  "file_content sf (ts @ [t]) = file_content sf ts @ writerow (transaction_row sf t)"
  by (simp add: file_content_def)

lemma file_content_snoc_neq: "file_content sf (ts @ [t]) \<noteq> file_content sf ts"
  by (simp add: file_content_snoc writerow_not_Nil)

lemma length_file_content:
  "length (file_content sf ts) =
     length (writerow csv_header) + sum_list (map (\<lambda>t. length (writerow (transaction_row sf t))) ts)"
  by (simp add: file_content_def length_concat comp_def)

lemma sum_list_list_del:
  "i < length xs \<Longrightarrow> sum_list (map f (list_del xs i)) + f (xs ! i) = (sum_list (map f xs) :: nat)"
  by (induction xs i rule: list_del.induct) simp_all

lemma file_content_list_del_neq:
  assumes "i < length ts"
  shows "file_content sf (list_del ts i) \<noteq> file_content sf ts"
proof -
  have p: "0 < length (writerow (transaction_row sf (ts ! i)))"
    by (simp add: writerow_not_Nil)
  have "sum_list (map (\<lambda>t. length (writerow (transaction_row sf t))) (list_del ts i))
        < sum_list (map (\<lambda>t. length (writerow (transaction_row sf t))) ts)"
    using sum_list_list_del [OF assms, of "\<lambda>t. length (writerow (transaction_row sf t))"] p
    by linarith
  then have "length (file_content sf (list_del ts i)) < length (file_content sf ts)"
    by (simp only: length_file_content add_less_cancel_left)
  then show ?thesis by auto
qed

lemma save_to_file_fails:
  assumes "write_fails w (filename m) (file_content sf (transactions m))"
  shows "\<exists>w'. save_to_file sf m w = (Some OSError, w') \<and>
              write_log w' = write_log w @ [filename m] \<and>
              (files w (filename m) \<noteq> Some (file_content sf (transactions m)) \<longrightarrow>
               files w' (filename m) \<noteq> Some (file_content sf (transactions m)))"
  using assms
  by (auto simp: save_to_file_def write_text_def write_fails_def Let_def split: write_fault.splits)

text \<open>
  C7. If the write of the backing file fails during \<open>add_transaction\<close>, or during
  \<open>delete_transaction\<close> with an index in range, the call raises the \<open>OSError\<close> of the write;
  the file was opened for writing once (no retry); the store keeps the appended, or
  shortened, transaction list; and a file that held the saved form of the old list does
  not hold the saved form of the new one, so memory and file differ.
\<close>

theorem write_failure_propagates:
  "(write_fails w (filename m) (file_content sf (transactions m @ [t])) \<longrightarrow>
      (\<exists>w'. add_transaction sf m t w = (Some OSError, m\<lparr>transactions := transactions m @ [t]\<rparr>, w') \<and>
            write_log w' = write_log w @ [filename m] \<and>
            (files w (filename m) = Some (file_content sf (transactions m)) \<longrightarrow>
             files w' (filename m) \<noteq> Some (file_content sf (transactions m @ [t]))))) \<and>
   (0 \<le> index \<and> index < int (length (transactions m)) \<and>
    write_fails w (filename m) (file_content sf (list_del (transactions m) (nat index))) \<longrightarrow>
      (\<exists>w'. delete_transaction sf m index w =
              (Some OSError, m\<lparr>transactions := list_del (transactions m) (nat index)\<rparr>, w') \<and>
            length (list_del (transactions m) (nat index)) < length (transactions m) \<and>
            write_log w' = write_log w @ [filename m] \<and>
            (files w (filename m) = Some (file_content sf (transactions m)) \<longrightarrow>
             files w' (filename m) \<noteq> Some (file_content sf (list_del (transactions m) (nat index))))))"
proof (intro conjI impI)
  assume f: "write_fails w (filename m) (file_content sf (transactions m @ [t]))"
  let ?m' = "m\<lparr>transactions := transactions m @ [t]\<rparr>"
  from f save_to_file_fails [of w ?m' sf]
  obtain w' where s: "save_to_file sf ?m' w = (Some OSError, w')"
    and l: "write_log w' = write_log w @ [filename m]"
    and d: "files w (filename m) \<noteq> Some (file_content sf (transactions m @ [t])) \<longrightarrow>
            files w' (filename m) \<noteq> Some (file_content sf (transactions m @ [t]))"
    by auto
  have "add_transaction sf m t w = (Some OSError, ?m', w')"
    using s by (simp add: add_transaction_def)
  moreover have "files w (filename m) = Some (file_content sf (transactions m)) \<longrightarrow>
             files w' (filename m) \<noteq> Some (file_content sf (transactions m @ [t]))"
    using d file_content_snoc_neq [of sf "transactions m" t] by auto
  ultimately show "\<exists>w'. add_transaction sf m t w = (Some OSError, ?m', w') \<and>
            write_log w' = write_log w @ [filename m] \<and>
            (files w (filename m) = Some (file_content sf (transactions m)) \<longrightarrow>
             files w' (filename m) \<noteq> Some (file_content sf (transactions m @ [t])))"
    using l by blast
next
  assume a: "0 \<le> index \<and> index < int (length (transactions m)) \<and>
    write_fails w (filename m) (file_content sf (list_del (transactions m) (nat index)))"
  then have i: "nat index < length (transactions m)" by linarith
  let ?ts' = "list_del (transactions m) (nat index)"
  let ?m' = "m\<lparr>transactions := ?ts'\<rparr>"
  from a save_to_file_fails [of w ?m' sf]
  obtain w' where s: "save_to_file sf ?m' w = (Some OSError, w')"
    and l: "write_log w' = write_log w @ [filename m]"
    and d: "files w (filename m) \<noteq> Some (file_content sf ?ts') \<longrightarrow>
            files w' (filename m) \<noteq> Some (file_content sf ?ts')"
    by auto
  have "delete_transaction sf m index w = (Some OSError, ?m', w')"
    using s a by (simp add: delete_transaction_def)
  moreover have "files w (filename m) = Some (file_content sf (transactions m)) \<longrightarrow>
             files w' (filename m) \<noteq> Some (file_content sf ?ts')"
    using d file_content_list_del_neq [OF i, of sf] by auto
  moreover have "length ?ts' < length (transactions m)"
    using i by (simp add: list_del_take_drop)
  ultimately show "\<exists>w'. delete_transaction sf m index w = (Some OSError, ?m', w') \<and>
            length ?ts' < length (transactions m) \<and>
            write_log w' = write_log w @ [filename m] \<and>
            (files w (filename m) = Some (file_content sf (transactions m)) \<longrightarrow>
             files w' (filename m) \<noteq> Some (file_content sf ?ts'))"
    using l by blast
qed

theorem write_failure_propagates_witness:
  "write_fails (readonly_world []) (filename new_manager)
     (file_content str_float_sample (transactions new_manager @ [tx_salary])) \<and>
   fst (add_transaction str_float_sample new_manager tx_salary (readonly_world [])) = Some OSError \<and>
   transactions (fst (snd (add_transaction str_float_sample new_manager tx_salary (readonly_world [])))) =
     [tx_salary] \<and>
   (0 \<le> (0::int) \<and> 0 < int (length (transactions (new_manager\<lparr>transactions := [tx_salary]\<rparr>))) \<and>
    write_fails (readonly_world [tx_salary]) (filename (new_manager\<lparr>transactions := [tx_salary]\<rparr>))
      (file_content str_float_sample (list_del (transactions (new_manager\<lparr>transactions := [tx_salary]\<rparr>)) (nat 0)))) \<and>
   fst (delete_transaction str_float_sample (new_manager\<lparr>transactions := [tx_salary]\<rparr>) 0
          (readonly_world [tx_salary])) = Some OSError \<and>
   transactions (fst (snd (delete_transaction str_float_sample (new_manager\<lparr>transactions := [tx_salary]\<rparr>) 0
          (readonly_world [tx_salary])))) = []"
proof -
  let ?m = "new_manager\<lparr>transactions := [tx_salary]\<rparr>"
  have a: "write_fails (readonly_world []) (filename new_manager)
     (file_content str_float_sample (transactions new_manager @ [tx_salary]))"
    by (simp add: write_fails_def readonly_world_def)
  have b: "0 \<le> (0::int) \<and> 0 < int (length (transactions ?m)) \<and>
    write_fails (readonly_world [tx_salary]) (filename ?m)
      (file_content str_float_sample (list_del (transactions ?m) (nat 0)))"
    by (simp add: write_fails_def readonly_world_def)
  from write_failure_propagates [of "readonly_world []" new_manager str_float_sample tx_salary 0] a
  obtain w' where "add_transaction str_float_sample new_manager tx_salary (readonly_world []) =
      (Some OSError, new_manager\<lparr>transactions := transactions new_manager @ [tx_salary]\<rparr>, w')"
    by blast
  then have c: "fst (add_transaction str_float_sample new_manager tx_salary (readonly_world [])) = Some OSError \<and>
    transactions (fst (snd (add_transaction str_float_sample new_manager tx_salary (readonly_world [])))) = [tx_salary]"
    by (simp add: new_manager_def)
  from write_failure_propagates [of "readonly_world [tx_salary]" ?m str_float_sample tx_salary 0] b
  obtain w'' where "delete_transaction str_float_sample ?m 0 (readonly_world [tx_salary]) =
      (Some OSError, ?m\<lparr>transactions := list_del (transactions ?m) (nat 0)\<rparr>, w'')"
    by blast
  then have d: "fst (delete_transaction str_float_sample ?m 0 (readonly_world [tx_salary])) = Some OSError \<and>
    transactions (fst (snd (delete_transaction str_float_sample ?m 0 (readonly_world [tx_salary])))) = []"
    by simp
  from a b c d show ?thesis by blast
qed

section \<open>The category catalog\<close>

lemma categories_load_rows_irrelevant:
  "categories (snd (load_from_file float_of m w)) = categories m"
  by (simp add: load_from_file_def split: sum.splits prod.splits option.splits)

text \<open>
  C8, as amended. The catalog of a freshly constructed store is the list of five preset
  categories, in this order: the incomes \<open>Zarplata\<close> and \<open>Investitsii\<close>, then the expenses
  \<open>Produkty\<close>, \<open>Transport_ru\<close> and \<open>Razvlecheniya\<close>. These are the Russian words for salary,
  investments, groceries, transport and entertainment, as the source spells them; the
  constants hold their UTF-8 bytes. \<open>add_transaction\<close>, \<open>delete_transaction\<close> and
  \<open>load_from_file\<close> return the catalog they were given; \<open>save_to_file\<close>, \<open>get_balance\<close> and
  \<open>get_category_summary\<close> do not return a store at all.
\<close>

theorem categories_fixed:
  "(FinanceManager_init float_of fname w = Inr m \<longrightarrow> categories m = preset_categories) \<and>
   map name preset_categories = [Zarplata, Investitsii, Produkty, Transport_ru, Razvlecheniya] \<and>
   map type preset_categories = [INCOME, INCOME, EXPENSE, EXPENSE, EXPENSE] \<and>
   categories (fst (snd (add_transaction sf m' t w'))) = categories m' \<and>
   categories (fst (snd (delete_transaction sf m' index w'))) = categories m' \<and>
   categories (snd (load_from_file float_of m' w')) = categories m'"
proof -
  have "categories m = preset_categories" if "FinanceManager_init float_of fname w = Inr m"
  proof -
    let ?m0 = "\<lparr>filename = fname, transactions = [], categories = preset_categories\<rparr>"
    from that have "m = snd (load_from_file float_of ?m0 w)"
      by (auto simp: FinanceManager_init_def split: prod.splits option.splits)
    then show ?thesis by (simp add: categories_load_rows_irrelevant)
  qed
  moreover have "categories (fst (snd (add_transaction sf m' t w'))) = categories m'"
    by (simp add: add_transaction_def Let_def split: prod.splits)
  moreover have "categories (fst (snd (delete_transaction sf m' index w'))) = categories m'"
    by (simp add: delete_transaction_def Let_def split: prod.splits)
  ultimately show ?thesis
    by (simp add: categories_load_rows_irrelevant preset_categories_def)
qed

theorem categories_fixed_witness:
  "FinanceManager_init float_of_sample ''transactions.csv'' empty_world = Inr new_manager \<and>
   categories new_manager = preset_categories"
proof -
  have a: "FinanceManager_init float_of_sample ''transactions.csv'' empty_world = Inr new_manager"
    by (simp add: FinanceManager_init_def load_from_file_def read_text_def empty_world_def new_manager_def)
  with categories_fixed [of float_of_sample "''transactions.csv''" empty_world new_manager]
  show ?thesis by blast
qed

text \<open>
  None of the five names of the fresh catalog is one of the English words
  Salary, Investments, Groceries, Transport, Entertainment.
\<close>

theorem catalog_names_counterexample:
  "FinanceManager_init float_of_sample ''transactions.csv'' empty_world = Inr new_manager \<and>
   set (map name (categories new_manager)) \<inter>
     {''Salary'', ''Investments'', ''Groceries'', ''Transport'', ''Entertainment''} = {}"
  by (simp add: FinanceManager_init_def load_from_file_def read_text_def empty_world_def new_manager_def
      preset_categories_def Zarplata_def Investitsii_def Produkty_def Transport_ru_def Razvlecheniya_def)

section \<open>Rows that are skipped, rows that raise\<close>

lemma load_row_unmatched: "category_unmatched cats row \<Longrightarrow> load_row float_of cats row = Inr None"
  by (auto simp: category_unmatched_def load_row_def split: option.splits)

lemma load_rows_filter_unmatched:
  "load_rows float_of cats (filter (\<lambda>row. \<not> category_unmatched cats row) rows) ts =
   load_rows float_of cats rows ts"
proof (induction rows arbitrary: ts)
  case Nil
  then show ?case by simp
next
  case (Cons row rows)
  show ?case
  proof (cases "category_unmatched cats row")
    case True
    then show ?thesis by (simp add: Cons.IH load_row_unmatched)
  next
    case False
    then show ?thesis by (simp add: Cons.IH split: sum.splits option.splits)
  qed
qed

text \<open>
  C5, as amended. Of the rows that \<open>csv.DictReader\<close> yields to the loop of \<open>load_from_file\<close>:
  a row whose stored category name matches no category of the catalog is skipped, whatever
  its other fields hold; it raises nothing, and loading a list of rows gives the same
  result as loading the list without such rows. A row whose category is in the catalog
  and whose amount text is not a number is not skipped: it raises \<open>ValueError\<close>, which ends
  the load with the transactions loaded so far. (What the reading itself raises before a
  row is yielded, as \<open>csv.Error\<close> for a field over the size limit, is not caught either
  and is not the subject here.)
\<close>

theorem unmatched_rows_skipped:
  "(category_unmatched cats row \<longrightarrow>
      load_rows float_of cats (row # rest) ts = load_rows float_of cats rest ts) \<and>
   load_rows float_of cats (filter (\<lambda>row. \<not> category_unmatched cats row) rows) ts =
     load_rows float_of cats rows ts \<and>
   (row ''Category'' = Some v \<and> find_category cats v = Some cat \<and>
    row ''Amount'' = Some (Some text) \<and> float_of text = None \<longrightarrow>
      load_rows float_of cats (row # rest) ts = (Some ValueError, ts))"
  by (simp add: load_rows_filter_unmatched load_row_unmatched) (simp add: load_row_def)


theorem unmatched_rows_skipped_witness:
  "category_unmatched preset_categories row_unknown_category \<and>
   load_rows float_of_sample preset_categories [row_unknown_category, row_salary] [] =
     load_rows float_of_sample preset_categories [row_salary] [] \<and>
   load_rows float_of_sample preset_categories [row_salary] [] = (None, [tx_salary]) \<and>
   (row_bad_amount ''Category'' = Some (Some Zarplata) \<and>
    find_category preset_categories (Some Zarplata) = Some salary \<and>
    row_bad_amount ''Amount'' = Some (Some ''abc'') \<and> float_of_sample ''abc'' = None) \<and>
   load_rows float_of_sample preset_categories [row_bad_amount, row_salary] [] = (Some ValueError, [])"
proof -
  have a: "category_unmatched preset_categories row_unknown_category"
    by (simp add: category_unmatched_def row_unknown_category_def csv_header_def find_category_def
        preset_categories_def Zarplata_def Investitsii_def Produkty_def Transport_ru_def
        Razvlecheniya_def)
  have b: "row_bad_amount ''Category'' = Some (Some Zarplata) \<and>
    find_category preset_categories (Some Zarplata) = Some salary \<and>
    row_bad_amount ''Amount'' = Some (Some ''abc'') \<and> float_of_sample ''abc'' = None"
    by (simp add: row_bad_amount_def csv_header_def find_category_def preset_categories_def
        salary_def float_of_sample_def)
  have c: "load_rows float_of_sample preset_categories [row_salary] [] = (None, [tx_salary])"
    by (simp add: row_salary_def csv_header_def load_row_def find_category_def preset_categories_def
        salary_def tx_salary_def float_of_sample_def)
  from unmatched_rows_skipped [of preset_categories row_unknown_category float_of_sample
      "[row_salary]" "[]"] a
  have d: "load_rows float_of_sample preset_categories [row_unknown_category, row_salary] [] =
     load_rows float_of_sample preset_categories [row_salary] []"
    by blast
  from unmatched_rows_skipped [of preset_categories row_bad_amount float_of_sample
      "[row_salary]" "[]" "[]" "Some Zarplata" salary "''abc''"] b
  have e: "load_rows float_of_sample preset_categories [row_bad_amount, row_salary] [] = (Some ValueError, [])"
    by blast
  from a b c d e show ?thesis by blast
qed

text \<open>
  A file with one row, category \<open>Zarplata\<close> and amount text \<open>abc\<close>: the constructor raises
  \<open>ValueError\<close> instead of skipping the row.
\<close>

theorem unparseable_amount_counterexample:
  "FinanceManager_init float_of_sample ''transactions.csv'' (world_with_file bad_amount_file) = Inl ValueError"
  by code_simp

section \<open>Rows without a description\<close>

text \<open>
  What \<open>load_row\<close> does with the \<open>Type\<close> and \<open>Description\<close> fields: the stored type is never
  read, the category (and with it the type) of a loaded transaction is the catalog's, and
  a row with no \<open>Description\<close> key, which is a file whose header has no such column, gets the
  empty description.
\<close>

lemma load_row_ignores_Type:
  "load_row float_of cats (row(''Type'' := v)) = load_row float_of cats row"
proof -
  have "(row(''Type'' := v)) ''Category'' = row ''Category''"
    and "(row(''Type'' := v)) ''Amount'' = row ''Amount''"
    and "(row(''Type'' := v)) ''Date'' = row ''Date''"
    and "(row(''Type'' := v)) ''Description'' = row ''Description''"
    by simp_all
  then show ?thesis unfolding load_row_def by (simp only:)
qed

lemma load_row_category_from_catalog:
  assumes "load_row float_of cats row = Inr (Some t)"
  shows "\<exists>v. row ''Category'' = Some v \<and> find_category cats v = Some (category t)"
  using assms by (auto simp: load_row_def split: option.splits)

lemma load_row_without_Description_key:
  assumes "row ''Description'' = None" and "load_row float_of cats row = Inr (Some t)"
  shows "description t = Some []"
  using assms by (auto simp: load_row_def split: option.splits)

text \<open>
  C9. The file holds the header with all five columns and one row that stops after the
  date. The row is loaded, its type taken from the catalog, but its description is
  Python's \<open>None\<close>, not the empty string: the DictReader fills the missing field with
  \<open>None\<close> under the key \<open>Description\<close>, so the default of \<open>row.get("Description", "")\<close> is
  not used.
\<close>

theorem short_row_description_is_None:
  "FinanceManager_init float_of_sample ''transactions.csv'' (world_with_file short_row_file) =
     Inr (new_manager\<lparr>transactions :=
            [\<lparr>amount = 100, category = salary, date = Some ''2024-01-05'', description = None\<rparr>]\<rparr>)"
  by code_simp

section \<open>Saving and loading again\<close>

text \<open>
  From the rows that \<open>save_to_file\<close> writes, taken as the DictReader would hand them back
  if every field came back as it was written, \<open>load_rows\<close> rebuilds the transactions in
  order: each name is found in a catalog with distinct names, and the amount comes back
  where \<open>float\<close> inverts \<open>str\<close>.
\<close>

lemma find_category_member:
  "distinct (map name cats) \<Longrightarrow> c \<in> set cats \<Longrightarrow> find_category cats (Some (name c)) = Some c"
  unfolding find_category_def
  by (induction cats) (auto simp: rev_image_eqI)

lemma load_row_transaction_row:
  assumes "distinct (map name cats)" and "category t \<in> set cats"
    and "float_of (sf (amount t)) = Some (amount t)"
    and "date t = Some d" and "description t = Some s"
  shows "load_row float_of cats (dict_zip csv_header (transaction_row sf t) Map.empty) = Inr (Some t)"
  using assms find_category_member [of cats "category t"]
  by (simp add: load_row_def csv_header_def transaction_row_def str_or_none_def)

lemma load_rows_transaction_rows:
  assumes "distinct (map name cats)"
    and "\<forall>t \<in> set ts. category t \<in> set cats \<and> float_of (sf (amount t)) = Some (amount t) \<and>
           date t \<noteq> None \<and> description t \<noteq> None"
  shows "load_rows float_of cats
           (map (\<lambda>t. dict_zip csv_header (transaction_row sf t) Map.empty) ts) acc = (None, acc @ ts)"
  using assms(2)
proof (induction ts arbitrary: acc)
  case Nil
  then show ?case by simp
next
  case (Cons t ts)
  from Cons.prems obtain d s where "date t = Some d" "description t = Some s" by auto
  with Cons.prems assms(1)
  have "load_row float_of cats (dict_zip csv_header (transaction_row sf t) Map.empty) = Inr (Some t)"
    by (intro load_row_transaction_row) auto
  with Cons show ?case by simp
qed

text \<open>
  C1. A transaction with a catalog category whose description is \<open>a\<close>, carriage return,
  \<open>b\<close> is added to an empty store on an empty file system, which saves it without error.
  A fresh store constructed on the saved file holds one transaction whose description is
  \<open>a\<close>, line feed, \<open>b\<close>: the file was written with \<open>newline=''\<close> but is read without it, and
  the universal-newlines translation rewrites the carriage return inside the quoted field.
\<close>

theorem carriage_return_not_restored:
  "(case add_transaction str_float_sample new_manager tx_cr empty_world of
      (e, m1, w1) \<Rightarrow>
        e = None \<and> transactions m1 = [tx_cr] \<and>
        FinanceManager_init float_of_sample ''transactions.csv'' w1 =
          Inr (new_manager\<lparr>transactions := [tx_cr\<lparr>description := Some [CHR ''a'', LF, CHR ''b'']\<rparr>]\<rparr>)) \<and>
   tx_cr\<lparr>description := Some [CHR ''a'', LF, CHR ''b'']\<rparr> \<noteq> tx_cr"
  by code_simp

section \<open>The balance: sums, order and rounding\<close>

text \<open>
  Where the amounts are added without rounding, in any type in which addition is
  associative and commutative with inverses (the integers, the rationals, the reals), the
  sums of \<open>get_balance\<close> are the mathematical sums and the balance is the sum of the signed
  amounts.
\<close>

lemma foldl_plus_sum_list: "foldl (+) a xs = a + sum_list (xs :: 'a::monoid_add list)"
  by (induction xs arbitrary: a) (simp_all add: add.assoc)

lemma py_sum_exact: "py_sum xs = sum_list (xs :: 'a::monoid_add list)"
  by (simp add: py_sum_def foldl_plus_sum_list)

lemma balance_split:
  "sum_list (map amount (filter (\<lambda>t. type (category t) = INCOME) ts)) -
   sum_list (map amount (filter (\<lambda>t. type (category t) = EXPENSE) ts)) =
   sum_list (map signed_amount (ts :: 'a::ab_group_add Transaction list))"
proof (induction ts)
  case Nil
  then show ?case by simp
next
  case (Cons t ts)
  then show ?case
    by (cases "type (category t)") (simp_all add: signed_amount_def algebra_simps)
qed

lemma get_balance_exact:
  "get_balance m = sum_list (map signed_amount (transactions (m :: 'a::ab_group_add FinanceManager)))"
  by (simp add: get_balance_def py_sum_exact balance_split)

lemma get_balance_exact_order:
  assumes "mset (transactions m') = mset (transactions m)"
  shows "get_balance m' = get_balance (m :: 'a::ab_group_add FinanceManager)"
proof -
  have "sum_list (map signed_amount (transactions m')) = sum_mset (image_mset signed_amount (mset (transactions m')))"
    by (metis mset_map sum_mset_sum_list)
  also have "\<dots> = sum_mset (image_mset signed_amount (mset (transactions m)))"
    by (simp add: assms)
  also have "\<dots> = sum_list (map signed_amount (transactions m))"
    by (metis mset_map sum_mset_sum_list)
  finally show ?thesis by (simp add: get_balance_exact)
qed

text \<open>
  C2, as amended. For every transaction sequence, \<open>get_balance\<close> is the sum of the amounts
  of the income transactions minus the sum of the amounts of the expense transactions, each
  sum taken from 0 by adding the amounts from left to right in insertion order. Where
  addition is exact, these are the mathematical sums and the balance does not depend on
  the order of the transactions.
\<close>

theorem get_balance_sums:
  fixes m :: "'a::{zero,plus,minus} FinanceManager" and m1 m2 :: "'b::ab_group_add FinanceManager"
  shows "get_balance m =
           foldl (+) 0 (map amount (filter (\<lambda>t. type (category t) = INCOME) (transactions m))) -
           foldl (+) 0 (map amount (filter (\<lambda>t. type (category t) = EXPENSE) (transactions m))) \<and>
         get_balance m1 =
           sum_list (map amount (filter (\<lambda>t. type (category t) = INCOME) (transactions m1))) -
           sum_list (map amount (filter (\<lambda>t. type (category t) = EXPENSE) (transactions m1))) \<and>
         (mset (transactions m2) = mset (transactions m1) \<longrightarrow> get_balance m2 = get_balance m1)"
proof (intro conjI impI)
  show "get_balance m =
           foldl (+) 0 (map amount (filter (\<lambda>t. type (category t) = INCOME) (transactions m))) -
           foldl (+) 0 (map amount (filter (\<lambda>t. type (category t) = EXPENSE) (transactions m)))"
    by (simp add: get_balance_def py_sum_def)
  show "get_balance m1 =
           sum_list (map amount (filter (\<lambda>t. type (category t) = INCOME) (transactions m1))) -
           sum_list (map amount (filter (\<lambda>t. type (category t) = EXPENSE) (transactions m1)))"
    by (simp add: get_balance_def py_sum_exact)
  assume "mset (transactions m2) = mset (transactions m1)"
  then show "get_balance m2 = get_balance m1" by (rule get_balance_exact_order)
qed

theorem get_balance_sums_witness:
  "mset (transactions (new_manager\<lparr>transactions := [tx_milk, tx_salary]\<rparr>)) =
     mset (transactions (new_manager\<lparr>transactions := [tx_salary, tx_milk]\<rparr>)) \<and>
   get_balance (new_manager\<lparr>transactions := [tx_milk, tx_salary]\<rparr>) =
     get_balance (new_manager\<lparr>transactions := [tx_salary, tx_milk]\<rparr>) \<and>
   get_balance (new_manager\<lparr>transactions := [tx_salary, tx_milk]\<rparr>) = 25000"
proof -
  let ?m1 = "new_manager\<lparr>transactions := [tx_salary, tx_milk]\<rparr>"
  let ?m2 = "new_manager\<lparr>transactions := [tx_milk, tx_salary]\<rparr>"
  have a: "mset (transactions ?m2) = mset (transactions ?m1)" by simp
  have b: "get_balance ?m1 = 25000"
    by (simp add: get_balance_def py_sum_def tx_salary_def tx_milk_def salary_def groceries_def)
  from get_balance_sums [of ?m1 ?m1 ?m2] a have "get_balance ?m2 = get_balance ?m1" by blast
  with a b show ?thesis by simp
qed

text \<open>
  With float amounts the order matters. Three incomes of \<open>2 ^ 54\<close>, \<open>2 ^ 106\<close> and
  \<open>2 ^ 53 - 1\<close>, each a float: in this order the balance is \<open>2 ^ 106 + 2 ^ 54\<close>, with the last
  two exchanged it is \<open>2 ^ 106 + 2 ^ 55\<close>. (The first order adds \<open>2 ^ 53 - 1\<close> to
  \<open>2 ^ 106 + 2 ^ 54\<close>, just under half a unit of the last place, and rounds down; the second
  rounds \<open>2 ^ 54 + 2 ^ 53 - 1\<close> up to \<open>3 * 2 ^ 53\<close>, and then a tie up to the even neighbour.)
\<close>

theorem float_balance_order_counterexample:
  "mset (transactions (float_manager [tx_float (2 ^ 54) salary, tx_float (2 ^ 53 - 1) salary, tx_float (2 ^ 106) salary])) =
     mset (transactions (float_manager [tx_float (2 ^ 54) salary, tx_float (2 ^ 106) salary, tx_float (2 ^ 53 - 1) salary])) \<and>
   map round_to_double [2 ^ 54, 2 ^ 106, 2 ^ 53 - 1] = [2 ^ 54, 2 ^ 106, 2 ^ 53 - 1] \<and>
   get_balance (float_manager [tx_float (2 ^ 54) salary, tx_float (2 ^ 106) salary, tx_float (2 ^ 53 - 1) salary]) =
     Dbl (2 ^ 106 + 2 ^ 54) \<and>
   get_balance (float_manager [tx_float (2 ^ 54) salary, tx_float (2 ^ 53 - 1) salary, tx_float (2 ^ 106) salary]) =
     Dbl (2 ^ 106 + 2 ^ 55) \<and>
   get_balance (float_manager [tx_float (2 ^ 54) salary, tx_float (2 ^ 53 - 1) salary, tx_float (2 ^ 106) salary]) \<noteq>
     get_balance (float_manager [tx_float (2 ^ 54) salary, tx_float (2 ^ 106) salary, tx_float (2 ^ 53 - 1) salary])"
proof -
  have a: "mset (transactions (float_manager [tx_float (2 ^ 54) salary, tx_float (2 ^ 53 - 1) salary, tx_float (2 ^ 106) salary])) =
     mset (transactions (float_manager [tx_float (2 ^ 54) salary, tx_float (2 ^ 106) salary, tx_float (2 ^ 53 - 1) salary]))"
    by (simp add: float_manager_def)
  have b: "map round_to_double [2 ^ 54, 2 ^ 106, 2 ^ 53 - 1] = [2 ^ 54, 2 ^ 106, 2 ^ 53 - 1]"
    by code_simp
  have c: "get_balance (float_manager [tx_float (2 ^ 54) salary, tx_float (2 ^ 106) salary, tx_float (2 ^ 53 - 1) salary]) =
     Dbl (2 ^ 106 + 2 ^ 54)"
    by code_simp
  have d: "get_balance (float_manager [tx_float (2 ^ 54) salary, tx_float (2 ^ 53 - 1) salary, tx_float (2 ^ 106) salary]) =
     Dbl (2 ^ 106 + 2 ^ 55)"
    by code_simp
  have e: "Dbl (2 ^ 106 + 2 ^ 55) \<noteq> Dbl (2 ^ 106 + 2 ^ 54)" by simp
  from a b c d e show ?thesis by (simp only: not_False_eq_True simp_thms)
qed

text \<open>
  The total of the category summary, in exact arithmetic: every step of the summary loop
  adds the signed amount of its transaction to one of the values.
\<close>

lemma sum_values_dict_set:
  "sum_list (map snd (dict_set d k v)) =
     sum_list (map snd d) - (case dict_get d k of None \<Rightarrow> 0 | Some old \<Rightarrow> old) + (v :: 'a::ab_group_add)"
  by (induction d) (auto simp: dict_get_def algebra_simps)

lemma sum_values_summary_step:
  "sum_list (map snd (summary_step d t)) = sum_list (map snd d) + signed_amount (t :: 'a::ab_group_add Transaction)"
  by (simp add: summary_step_def Let_def sum_values_dict_set dict_get_dict_set signed_amount_def
      split: option.splits)

lemma sum_values_foldl_summary_step:
  "sum_list (map snd (foldl summary_step d ts)) =
     sum_list (map snd d) + sum_list (map signed_amount (ts :: 'a::ab_group_add Transaction list))"
  by (induction ts arbitrary: d) (simp_all add: sum_values_summary_step add.assoc)

text \<open>
  C10, as amended. For every store, whatever categories its transactions have: where
  addition is exact, \<open>get_balance\<close> is the sum of all values of the mapping that
  \<open>get_category_summary\<close> returns. Both are functions of the store that return a value and
  no store, so neither changes anything.
\<close>

theorem balance_is_summary_total:
  "get_balance m = sum_list (map snd (get_category_summary (m :: 'a::ab_group_add FinanceManager)))"
  by (simp add: get_balance_exact get_category_summary_def sum_values_foldl_summary_step)

text \<open>
  With float amounts the two differ. A salary of \<open>2 ^ 53\<close>, groceries for \<open>2 ^ 53\<close> and
  investments of 1, all three categories from the catalog: the incomes sum to \<open>2 ^ 53\<close>
  (the 1 is lost in rounding) and the balance is 0, while the summary holds \<open>2 ^ 53\<close>,
  \<open>- 2 ^ 53\<close> and 1, whose sum is 1, exactly and as Python's \<open>sum\<close> adds them.
\<close>

theorem float_balance_summary_counterexample:
  "set (map category (transactions (float_manager
       [tx_float (2 ^ 53) salary, tx_float (2 ^ 53) groceries, tx_float 1 investments]))) \<subseteq>
     set (categories (float_manager
       [tx_float (2 ^ 53) salary, tx_float (2 ^ 53) groceries, tx_float 1 investments])) \<and>
   map round_to_double [2 ^ 53, 1] = [2 ^ 53, 1] \<and>
   get_balance (float_manager
       [tx_float (2 ^ 53) salary, tx_float (2 ^ 53) groceries, tx_float 1 investments]) = Dbl 0 \<and>
   get_category_summary (float_manager
       [tx_float (2 ^ 53) salary, tx_float (2 ^ 53) groceries, tx_float 1 investments]) =
     [(Zarplata, Dbl (2 ^ 53)), (Produkty, Dbl (- (2 ^ 53))), (Investitsii, Dbl 1)] \<and>
   py_sum (map snd (get_category_summary (float_manager
       [tx_float (2 ^ 53) salary, tx_float (2 ^ 53) groceries, tx_float 1 investments]))) = Dbl 1"
proof -
  let ?m = "float_manager [tx_float (2 ^ 53) salary, tx_float (2 ^ 53) groceries, tx_float 1 investments]"
  have a: "set (map category (transactions ?m)) \<subseteq> set (categories ?m)"
    by (simp add: float_manager_def tx_float_def preset_categories_def salary_def groceries_def
        investments_def)
  have b: "map round_to_double [2 ^ 53, 1] = [2 ^ 53, 1]" by code_simp
  have c: "get_balance ?m = Dbl 0" by code_simp
  have d: "get_category_summary ?m =
     [(Zarplata, Dbl (2 ^ 53)), (Produkty, Dbl (- (2 ^ 53))), (Investitsii, Dbl 1)]"
    by code_simp
  have e: "py_sum (map snd (get_category_summary ?m)) = Dbl 1" by code_simp
  from a b c d e show ?thesis by (simp only: simp_thms)
qed

section \<open>Saving and loading text without carriage returns\<close>

text \<open>
  The extent of the loss shown above: where no field holds a carriage return, the reader
  gets back from the written text exactly the rows that were written, and a store
  constructed on a saved file holds the saved transactions in order.
\<close>

subsection \<open>Newline translation of what the writer wrote\<close>

lemma universal_newlines_Cons: "c \<noteq> CR \<Longrightarrow> universal_newlines (c # cs) = c # universal_newlines cs"
  by (cases cs) simp_all

lemma universal_newlines_CRLF: "universal_newlines (CR # LF # cs) = LF # universal_newlines cs"
  by simp

lemma universal_newlines_line:
  "CR \<notin> set s \<Longrightarrow> universal_newlines (s @ CR # LF # rest) = s @ LF # universal_newlines rest"
proof (induction s)
  case Nil
  show ?case by simp
next
  case (Cons c s)
  then have "c \<noteq> CR" by auto
  with Cons show ?case
    by (simp add: universal_newlines_Cons del: universal_newlines.simps)
qed

declare parse_process_char.simps [simp del] parse_process_eol.simps [simp del]

subsection \<open>The reader on a text that is still being split into lines\<close>

lemma reader_lines_char:
  "c \<noteq> LF \<Longrightarrow> csv_reader r (file_lines cur (c # inp)) = csv_reader r (file_lines (cur @ [c]) inp)"
  by simp

lemma reader_lines_same:
  assumes "\<And>s. parse_line r (cur @ s) = parse_line r' (cur' @ s)" and "LF \<in> set inp"
  shows "csv_reader r (file_lines cur inp) = csv_reader r' (file_lines cur' inp)"
  using assms
proof (induction inp arbitrary: cur cur')
  case Nil
  then show ?case by simp
next
  case (Cons c inp)
  show ?case
  proof (cases "c = LF")
    case True
    with Cons.prems(1) [of "[LF]"] show ?thesis by simp
  next
    case False
    have "\<And>s. parse_line r ((cur @ [c]) @ s) = parse_line r' ((cur' @ [c]) @ s)"
      using Cons.prems(1) by simp
    moreover from False Cons.prems(2) have "LF \<in> set inp" by simp
    ultimately have "csv_reader r (file_lines (cur @ [c]) inp) = csv_reader r' (file_lines (cur' @ [c]) inp)"
      by (rule Cons.IH)
    with False show ?thesis by simp
  qed
qed

lemma reader_step:
  assumes "parse_process_char r c = Inr r'" and "c \<noteq> LF" and "LF \<in> set inp"
  shows "csv_reader r (file_lines [] (c # inp)) = csv_reader r' (file_lines [] inp)"
proof -
  have "csv_reader r (file_lines [] (c # inp)) = csv_reader r (file_lines [c] inp)"
    using assms(2) by simp
  also have "\<dots> = csv_reader r' (file_lines [] inp)"
    by (rule reader_lines_same) (simp_all add: assms)
  finally show ?thesis .
qed


subsection \<open>Single steps of the parser\<close>

lemma py_len_snoc: "py_len (f @ [c]) = py_len f + (if utf8_continuation c then 0 else 1)"
  by (simp add: py_len_def)

lemma py_len_append: "py_len (f @ s) = py_len f + py_len s"
  by (simp add: py_len_def)

lemma py_len_nonneg: "0 \<le> py_len s"
  by (simp add: py_len_def)

lemma py_len_le_length: "py_len s \<le> int (length s)"
  by (simp add: py_len_def)

lemma py_len_first: "py_len ([] @ [c]) \<le> field_limit"
  by (simp add: py_len_def field_limit_def)

lemma py_len_prefix: "py_len (f @ c # s) \<le> field_limit \<Longrightarrow> py_len (f @ [c]) \<le> field_limit"
  using py_len_append [of "f @ [c]" s] py_len_nonneg [of s] by simp

lemma add_char_ok:
  "py_len (f @ [c]) \<le> field_limit \<Longrightarrow>
   parse_add_char \<lparr>p_state = st, p_field = f, p_fields = fs\<rparr> c =
     Inr \<lparr>p_state = st, p_field = f @ [c], p_fields = fs\<rparr>"
  by (auto simp: parse_add_char_def py_len_snoc)

lemma add_char_over_limit:
  "field_limit \<le> py_len f \<Longrightarrow> \<not> utf8_continuation c \<Longrightarrow>
   parse_add_char \<lparr>p_state = st, p_field = f, p_fields = fs\<rparr> c = Inl CsvError"
  by (simp add: parse_add_char_def)

lemma char_in_field:
  "\<not> csv_special c \<Longrightarrow> py_len (f @ [c]) \<le> field_limit \<Longrightarrow>
   parse_process_char \<lparr>p_state = IN_FIELD, p_field = f, p_fields = fs\<rparr> c =
     Inr \<lparr>p_state = IN_FIELD, p_field = f @ [c], p_fields = fs\<rparr>"
  by (simp add: parse_process_char.simps add_char_ok csv_special_def)

lemma char_start_field:
  "\<not> csv_special c \<Longrightarrow>
   parse_process_char \<lparr>p_state = START_FIELD, p_field = [], p_fields = fs\<rparr> c =
     Inr \<lparr>p_state = IN_FIELD, p_field = [c], p_fields = fs\<rparr>"
  using add_char_ok [of "[]" c START_FIELD fs, OF py_len_first]
  by (simp add: parse_process_char.simps add_char_then_def csv_special_def)

lemma quote_start_field:
  "parse_process_char \<lparr>p_state = START_FIELD, p_field = [], p_fields = fs\<rparr> DQUOTE =
     Inr \<lparr>p_state = IN_QUOTED_FIELD, p_field = [], p_fields = fs\<rparr>"
  by (simp add: parse_process_char.simps)

lemma char_in_quoted:
  "c \<noteq> DQUOTE \<Longrightarrow> py_len (f @ [c]) \<le> field_limit \<Longrightarrow>
   parse_process_char \<lparr>p_state = IN_QUOTED_FIELD, p_field = f, p_fields = fs\<rparr> c =
     Inr \<lparr>p_state = IN_QUOTED_FIELD, p_field = f @ [c], p_fields = fs\<rparr>"
  by (simp add: parse_process_char.simps add_char_ok)

lemma quote_in_quoted:
  "parse_process_char \<lparr>p_state = IN_QUOTED_FIELD, p_field = f, p_fields = fs\<rparr> DQUOTE =
     Inr \<lparr>p_state = QUOTE_IN_QUOTED_FIELD, p_field = f, p_fields = fs\<rparr>"
  by (simp add: parse_process_char.simps)

lemma quote_after_quote:
  "py_len (f @ [DQUOTE]) \<le> field_limit \<Longrightarrow>
   parse_process_char \<lparr>p_state = QUOTE_IN_QUOTED_FIELD, p_field = f, p_fields = fs\<rparr> DQUOTE =
     Inr \<lparr>p_state = IN_QUOTED_FIELD, p_field = f @ [DQUOTE], p_fields = fs\<rparr>"
  by (simp add: parse_process_char.simps add_char_then_def add_char_ok)

lemma comma_ends_field:
  "st = START_FIELD \<or> st = IN_FIELD \<or> st = QUOTE_IN_QUOTED_FIELD \<Longrightarrow>
   parse_process_char \<lparr>p_state = st, p_field = f, p_fields = fs\<rparr> COMMA =
     Inr \<lparr>p_state = START_FIELD, p_field = [], p_fields = fs @ [f]\<rparr>"
  by (auto simp: parse_process_char.simps parse_save_field_def)

lemma newline_ends_record:
  "st = START_FIELD \<or> st = IN_FIELD \<or> st = QUOTE_IN_QUOTED_FIELD \<Longrightarrow>
   parse_line \<lparr>p_state = st, p_field = f, p_fields = fs\<rparr> [LF] =
     Inr \<lparr>p_state = START_RECORD, p_field = [], p_fields = fs @ [f]\<rparr>"
  by (auto simp: parse_process_char.simps parse_process_eol.simps parse_save_field_def)

lemma newline_in_quoted:
  "py_len (f @ [LF]) \<le> field_limit \<Longrightarrow>
   parse_line \<lparr>p_state = IN_QUOTED_FIELD, p_field = f, p_fields = fs\<rparr> [LF] =
     Inr \<lparr>p_state = IN_QUOTED_FIELD, p_field = f @ [LF], p_fields = fs\<rparr>"
  by (simp add: parse_process_char.simps parse_process_eol.simps add_char_ok)

lemma newline_empty_record:
  "parse_line parse_reset [LF] = Inr parse_reset"
  by (simp add: parse_process_char.simps parse_process_eol.simps parse_reset_def)

lemma reader_newline:
  assumes "parse_line r [LF] = Inr r'"
  shows "csv_reader r (file_lines [] (LF # inp)) =
         (if p_state r' = START_RECORD
          then (case csv_reader parse_reset (file_lines [] inp) of (rows, e) \<Rightarrow> (p_fields r' # rows, e))
          else csv_reader r' (file_lines [] inp))"
  using assms by (simp del: parse_line.simps)

subsection \<open>Fields\<close>

lemma reader_in_field:
  assumes "\<not> list_ex csv_special s" and "LF \<in> set inp" and "py_len (f @ s) \<le> field_limit"
  shows "csv_reader \<lparr>p_state = IN_FIELD, p_field = f, p_fields = fs\<rparr> (file_lines [] (s @ inp)) =
         csv_reader \<lparr>p_state = IN_FIELD, p_field = f @ s, p_fields = fs\<rparr> (file_lines [] inp)"
  using assms(1,3)
proof (induction s arbitrary: f)
  case Nil
  show ?case by simp
next
  case (Cons c s)
  then have c: "\<not> csv_special c" and s: "\<not> list_ex csv_special s" by simp_all
  from Cons.prems(2) have r: "py_len (f @ [c]) \<le> field_limit" by (rule py_len_prefix)
  from Cons.prems(2) have r': "py_len ((f @ [c]) @ s) \<le> field_limit" by simp
  from c have "c \<noteq> LF" by (auto simp: csv_special_def)
  with char_in_field [OF c r] assms(2)
  have "csv_reader \<lparr>p_state = IN_FIELD, p_field = f, p_fields = fs\<rparr> (file_lines [] (c # (s @ inp))) =
        csv_reader \<lparr>p_state = IN_FIELD, p_field = f @ [c], p_fields = fs\<rparr> (file_lines [] (s @ inp))"
    by (intro reader_step) simp_all
  with Cons.IH [OF s r'] show ?case by simp
qed

lemma reader_quoted_body:
  assumes "LF \<in> set inp" and "py_len (f @ s) \<le> field_limit"
  shows "csv_reader \<lparr>p_state = IN_QUOTED_FIELD, p_field = f, p_fields = fs\<rparr>
           (file_lines [] (concat (map (\<lambda>c. if c = DQUOTE then [DQUOTE, DQUOTE] else [c]) s) @ inp)) =
         csv_reader \<lparr>p_state = IN_QUOTED_FIELD, p_field = f @ s, p_fields = fs\<rparr> (file_lines [] inp)"
  using assms(2)
proof (induction s arbitrary: f)
  case Nil
  show ?case by simp
next
  case (Cons c s)
  let ?rest = "concat (map (\<lambda>c. if c = DQUOTE then [DQUOTE, DQUOTE] else [c]) s) @ inp"
  have l: "LF \<in> set ?rest" using assms(1) by simp
  from Cons.prems have r: "py_len (f @ [c]) \<le> field_limit" by (rule py_len_prefix)
  from Cons.prems have r': "py_len ((f @ [c]) @ s) \<le> field_limit" by simp
  have "csv_reader \<lparr>p_state = IN_QUOTED_FIELD, p_field = f, p_fields = fs\<rparr>
          (file_lines [] ((if c = DQUOTE then [DQUOTE, DQUOTE] else [c]) @ ?rest)) =
        csv_reader \<lparr>p_state = IN_QUOTED_FIELD, p_field = f @ [c], p_fields = fs\<rparr> (file_lines [] ?rest)"
  proof (cases "c = DQUOTE")
    case True
    have "csv_reader \<lparr>p_state = IN_QUOTED_FIELD, p_field = f, p_fields = fs\<rparr>
            (file_lines [] (DQUOTE # DQUOTE # ?rest)) =
          csv_reader \<lparr>p_state = QUOTE_IN_QUOTED_FIELD, p_field = f, p_fields = fs\<rparr>
            (file_lines [] (DQUOTE # ?rest))"
      using l by (intro reader_step quote_in_quoted) simp_all
    also have "\<dots> = csv_reader \<lparr>p_state = IN_QUOTED_FIELD, p_field = f @ [DQUOTE], p_fields = fs\<rparr>
            (file_lines [] ?rest)"
      using l r True by (intro reader_step quote_after_quote) simp_all
    finally show ?thesis using True by simp
  next
    case False
    show ?thesis
    proof (cases "c = LF")
      case True
      with r have "py_len (f @ [LF]) \<le> field_limit" by simp
      from reader_newline [OF newline_in_quoted [OF this], of fs ?rest] True show ?thesis
        by (simp del: file_lines.simps parse_line.simps)
    next
      case nl: False
      from False r have "parse_process_char \<lparr>p_state = IN_QUOTED_FIELD, p_field = f, p_fields = fs\<rparr> c =
          Inr \<lparr>p_state = IN_QUOTED_FIELD, p_field = f @ [c], p_fields = fs\<rparr>"
        by (rule char_in_quoted)
      from this nl l
      have "csv_reader \<lparr>p_state = IN_QUOTED_FIELD, p_field = f, p_fields = fs\<rparr> (file_lines [] (c # ?rest)) =
            csv_reader \<lparr>p_state = IN_QUOTED_FIELD, p_field = f @ [c], p_fields = fs\<rparr> (file_lines [] ?rest)"
        by (rule reader_step)
      with False show ?thesis by (simp del: file_lines.simps)
    qed
  qed
  with Cons.IH [OF r'] show ?case by simp
qed

lemma reader_field:
  assumes "LF \<in> set inp" and "py_len f \<le> field_limit"
  shows "\<exists>st. (st = START_FIELD \<or> st = IN_FIELD \<or> st = QUOTE_IN_QUOTED_FIELD) \<and>
           csv_reader \<lparr>p_state = START_FIELD, p_field = [], p_fields = fs\<rparr>
             (file_lines [] (join_append f @ inp)) =
           csv_reader \<lparr>p_state = st, p_field = f, p_fields = fs\<rparr> (file_lines [] inp)"
proof (cases "list_ex csv_special f")
  case True
  let ?body = "concat (map (\<lambda>c. if c = DQUOTE then [DQUOTE, DQUOTE] else [c]) f)"
  have "csv_reader \<lparr>p_state = START_FIELD, p_field = [], p_fields = fs\<rparr>
          (file_lines [] (DQUOTE # ?body @ DQUOTE # inp)) =
        csv_reader \<lparr>p_state = IN_QUOTED_FIELD, p_field = [], p_fields = fs\<rparr>
          (file_lines [] (?body @ DQUOTE # inp))"
    using assms(1) by (intro reader_step quote_start_field) simp_all
  also have "\<dots> = csv_reader \<lparr>p_state = IN_QUOTED_FIELD, p_field = [] @ f, p_fields = fs\<rparr>
          (file_lines [] (DQUOTE # inp))"
    using assms by (intro reader_quoted_body) simp_all
  also have "\<dots> = csv_reader \<lparr>p_state = QUOTE_IN_QUOTED_FIELD, p_field = f, p_fields = fs\<rparr>
          (file_lines [] inp)"
    using assms(1) by (simp del: file_lines.simps) (intro reader_step quote_in_quoted, simp_all)
  finally show ?thesis using True by (auto simp: join_append_def quote_field_def)
next
  case False
  show ?thesis
  proof (cases f)
    case Nil
    with False show ?thesis by (auto simp: join_append_def)
  next
    case (Cons c s)
    with False have c: "\<not> csv_special c" and s: "\<not> list_ex csv_special s" by simp_all
    from c have "c \<noteq> LF" by (auto simp: csv_special_def)
    with char_start_field [OF c] assms(1)
    have "csv_reader \<lparr>p_state = START_FIELD, p_field = [], p_fields = fs\<rparr>
            (file_lines [] (c # (s @ inp))) =
          csv_reader \<lparr>p_state = IN_FIELD, p_field = [c], p_fields = fs\<rparr> (file_lines [] (s @ inp))"
      by (intro reader_step) simp_all
    also have "\<dots> = csv_reader \<lparr>p_state = IN_FIELD, p_field = [c] @ s, p_fields = fs\<rparr> (file_lines [] inp)"
      using s assms(1) assms(2) Cons by (intro reader_in_field) simp_all
    finally show ?thesis using False Cons by (auto simp: join_append_def)
  qed
qed

lemma reader_field_comma:
  assumes "LF \<in> set inp" and "py_len f \<le> field_limit"
  shows "csv_reader \<lparr>p_state = START_FIELD, p_field = [], p_fields = fs\<rparr>
           (file_lines [] (join_append f @ COMMA # inp)) =
         csv_reader \<lparr>p_state = START_FIELD, p_field = [], p_fields = fs @ [f]\<rparr> (file_lines [] inp)"
proof -
  from assms(1) have "LF \<in> set (COMMA # inp)" by simp
  from reader_field [OF this assms(2), of fs]
  obtain st where st: "st = START_FIELD \<or> st = IN_FIELD \<or> st = QUOTE_IN_QUOTED_FIELD"
    and e: "csv_reader \<lparr>p_state = START_FIELD, p_field = [], p_fields = fs\<rparr>
             (file_lines [] (join_append f @ COMMA # inp)) =
           csv_reader \<lparr>p_state = st, p_field = f, p_fields = fs\<rparr> (file_lines [] (COMMA # inp))"
    by blast
  have "csv_reader \<lparr>p_state = st, p_field = f, p_fields = fs\<rparr> (file_lines [] (COMMA # inp)) =
        csv_reader \<lparr>p_state = START_FIELD, p_field = [], p_fields = fs @ [f]\<rparr> (file_lines [] inp)"
    using assms(1) comma_ends_field [OF st] by (intro reader_step) simp_all
  with e show ?thesis by simp
qed

lemma reader_field_newline:
  assumes "py_len f \<le> field_limit"
  shows "csv_reader \<lparr>p_state = START_FIELD, p_field = [], p_fields = fs\<rparr>
           (file_lines [] (join_append f @ LF # inp)) =
         (case csv_reader parse_reset (file_lines [] inp) of (rows, e) \<Rightarrow> ((fs @ [f]) # rows, e))"
proof -
  have "LF \<in> set (LF # inp)" by simp
  from reader_field [OF this assms, of fs]
  obtain st where st: "st = START_FIELD \<or> st = IN_FIELD \<or> st = QUOTE_IN_QUOTED_FIELD"
    and e: "csv_reader \<lparr>p_state = START_FIELD, p_field = [], p_fields = fs\<rparr>
             (file_lines [] (join_append f @ LF # inp)) =
           csv_reader \<lparr>p_state = st, p_field = f, p_fields = fs\<rparr> (file_lines [] (LF # inp))"
    by blast
  from reader_newline [OF newline_ends_record [OF st], of f fs inp] e
  show ?thesis by simp
qed

lemma reader_join_fields:
  "row \<noteq> [] \<Longrightarrow> \<forall>f \<in> set row. py_len f \<le> field_limit \<Longrightarrow>
   csv_reader \<lparr>p_state = START_FIELD, p_field = [], p_fields = fs\<rparr>
     (file_lines [] (join_fields row @ LF # inp)) =
   (case csv_reader parse_reset (file_lines [] inp) of (rows, e) \<Rightarrow> ((fs @ row) # rows, e))"
proof (induction row arbitrary: fs rule: join_fields.induct)
  case 1
  then show ?case by simp
next
  case (2 f)
  then have "py_len f \<le> field_limit" by simp
  from reader_field_newline [OF this, of fs inp] show ?case by simp
next
  case (3 f g row)
  from 3(3) have f: "py_len f \<le> field_limit" and r: "\<forall>f \<in> set (g # row). py_len f \<le> field_limit"
    by simp_all
  have "csv_reader \<lparr>p_state = START_FIELD, p_field = [], p_fields = fs\<rparr>
          (file_lines [] (join_append f @ COMMA # (join_fields (g # row) @ LF # inp))) =
        csv_reader \<lparr>p_state = START_FIELD, p_field = [], p_fields = fs @ [f]\<rparr>
          (file_lines [] (join_fields (g # row) @ LF # inp))"
    using f by (intro reader_field_comma) simp_all
  with 3(1) [of "fs @ [f]"] r show ?case by simp
qed

subsection \<open>Records\<close>

lemma reader_start_record:
  assumes "c \<noteq> LF" and "c \<noteq> CR" and "LF \<in> set inp"
  shows "csv_reader parse_reset (file_lines [] (c # inp)) =
         csv_reader \<lparr>p_state = START_FIELD, p_field = [], p_fields = []\<rparr> (file_lines [] (c # inp))"
proof -
  have "\<exists>r'. parse_process_char \<lparr>p_state = START_FIELD, p_field = [], p_fields = []\<rparr> c = Inr r' \<and>
             parse_process_char parse_reset c = Inr r'"
    using assms(1,2) add_char_ok [of "[]" c START_FIELD "[]", OF py_len_first]
      add_char_ok [of "[]" c START_RECORD "[]", OF py_len_first]
    by (cases "c = DQUOTE"; cases "c = COMMA";
        simp add: parse_process_char.simps parse_reset_def parse_save_field_def add_char_then_def)
  then obtain r' where r: "parse_process_char \<lparr>p_state = START_FIELD, p_field = [], p_fields = []\<rparr> c = Inr r'"
    and r0: "parse_process_char parse_reset c = Inr r'"
    by blast
  from r0 assms(1,3) have "csv_reader parse_reset (file_lines [] (c # inp)) = csv_reader r' (file_lines [] inp)"
    by (rule reader_step)
  moreover from r assms(1,3)
  have "csv_reader \<lparr>p_state = START_FIELD, p_field = [], p_fields = []\<rparr> (file_lines [] (c # inp)) =
        csv_reader r' (file_lines [] inp)"
    by (rule reader_step)
  ultimately show ?thesis by simp
qed

lemma join_append_head:
  "join_append f = [] \<and> f = [] \<or> (\<exists>c cs. join_append f = c # cs \<and> c \<noteq> LF \<and> c \<noteq> CR)"
proof (cases "list_ex csv_special f")
  case True
  then show ?thesis by (simp add: join_append_def quote_field_def)
next
  case False
  then show ?thesis by (cases f) (auto simp: join_append_def csv_special_def)
qed

lemma join_fields_head:
  assumes "row \<noteq> []" and "row \<noteq> [[]]"
  shows "\<exists>c cs. join_fields row = c # cs \<and> c \<noteq> LF \<and> c \<noteq> CR"
proof (cases row rule: join_fields.cases)
  case 1
  with assms show ?thesis by simp
next
  case (2 f)
  with assms join_append_head [of f] show ?thesis by auto
next
  case (3 f g fs)
  with join_append_head [of f] show ?thesis by auto
qed

lemma reader_row:
  assumes "\<forall>f \<in> set row. py_len f \<le> field_limit"
  shows "csv_reader parse_reset (file_lines [] (row_text row @ LF # inp)) =
         (case csv_reader parse_reset (file_lines [] inp) of (rows, e) \<Rightarrow> (row # rows, e))"
proof -
  consider "row = []" | "row = [[]]" | "row \<noteq> []" "row \<noteq> [[]]" by blast
  then show ?thesis
  proof cases
    case 1
    with reader_newline [OF newline_empty_record, of inp] show ?thesis
      by (simp add: row_text_def parse_reset_def del: file_lines.simps)
  next
    case 2
    have "csv_reader parse_reset (file_lines [] (DQUOTE # DQUOTE # LF # inp)) =
          csv_reader \<lparr>p_state = START_FIELD, p_field = [], p_fields = []\<rparr>
            (file_lines [] (DQUOTE # DQUOTE # LF # inp))"
      by (rule reader_start_record) simp_all
    also have "\<dots> = csv_reader \<lparr>p_state = IN_QUOTED_FIELD, p_field = [], p_fields = []\<rparr>
            (file_lines [] (DQUOTE # LF # inp))"
      by (intro reader_step quote_start_field) simp_all
    also have "\<dots> = csv_reader \<lparr>p_state = QUOTE_IN_QUOTED_FIELD, p_field = [], p_fields = []\<rparr>
            (file_lines [] (LF # inp))"
      by (intro reader_step quote_in_quoted) simp_all
    also have "\<dots> = (case csv_reader parse_reset (file_lines [] inp) of (rows, e) \<Rightarrow> ([[]] # rows, e))"
      using reader_newline [OF newline_ends_record, of QUOTE_IN_QUOTED_FIELD "[]" "[]" inp] by simp
    finally show ?thesis using 2 by (simp add: row_text_def)
  next
    case 3
    from join_fields_head [OF 3] obtain c cs where j: "join_fields row = c # cs" "c \<noteq> LF" "c \<noteq> CR"
      by blast
    then have "csv_reader parse_reset (file_lines [] (c # (cs @ LF # inp))) =
          csv_reader \<lparr>p_state = START_FIELD, p_field = [], p_fields = []\<rparr>
            (file_lines [] (c # (cs @ LF # inp)))"
      by (intro reader_start_record) simp_all
    with reader_join_fields [OF 3(1) assms, of "[]" inp] j 3 show ?thesis
      by (simp add: row_text_def)
  qed
qed

lemma reader_rows:
  assumes "\<forall>row \<in> set rows. \<forall>f \<in> set row. py_len f \<le> field_limit"
  shows "csv_reader parse_reset (file_lines [] (concat (map (\<lambda>row. row_text row @ [LF]) rows))) = (rows, None)"
  using assms
proof (induction rows)
  case Nil
  show ?case by (simp add: parse_reset_def)
next
  case (Cons row rows)
  then have "\<forall>f \<in> set row. py_len f \<le> field_limit" by simp
  from reader_row [OF this, of "concat (map (\<lambda>row. row_text row @ [LF]) rows)"] Cons show ?case
    by simp
qed

subsection \<open>The round trip of the csv layer\<close>

lemma CR_free_join_append: "CR \<notin> set f \<Longrightarrow> CR \<notin> set (join_append f)"
  by (auto simp: join_append_def quote_field_def split: if_splits)

lemma CR_free_join_fields: "\<forall>f \<in> set row. CR \<notin> set f \<Longrightarrow> CR \<notin> set (join_fields row)"
  by (induction row rule: join_fields.induct) (simp_all add: CR_free_join_append)

lemma CR_free_row_text: "\<forall>f \<in> set row. CR \<notin> set f \<Longrightarrow> CR \<notin> set (row_text row)"
  by (simp add: row_text_def CR_free_join_fields)

lemma universal_newlines_rows:
  "\<forall>row \<in> set rows. \<forall>f \<in> set row. CR \<notin> set f \<Longrightarrow>
   universal_newlines (concat (map writerow rows)) = concat (map (\<lambda>row. row_text row @ [LF]) rows)"
proof (induction rows)
  case Nil
  show ?case by simp
next
  case (Cons row rows)
  then have "CR \<notin> set (row_text row)" by (simp add: CR_free_row_text)
  from universal_newlines_line [OF this, of "concat (map writerow rows)"]
  have "universal_newlines (writerow row @ concat (map writerow rows)) =
        row_text row @ LF # universal_newlines (concat (map writerow rows))"
    by (simp add: writerow_def)
  moreover from Cons have "universal_newlines (concat (map writerow rows)) =
        concat (map (\<lambda>row. row_text row @ [LF]) rows)"
    by simp
  ultimately show ?case by simp
qed

lemma csv_round_trip:
  assumes "\<forall>row \<in> set rows. \<forall>f \<in> set row. CR \<notin> set f"
    and "\<forall>row \<in> set rows. \<forall>f \<in> set row. py_len f \<le> field_limit"
  shows "csv_reader parse_reset (file_lines [] (universal_newlines (concat (map writerow rows)))) = (rows, None)"
  by (simp add: universal_newlines_rows [OF assms(1)] reader_rows [OF assms(2)])

subsection \<open>The round trip of the ledger\<close>

lemma CR_free_constants:
  "CR \<notin> set Dohod" "CR \<notin> set Rashod" "\<forall>f \<in> set csv_header. CR \<notin> set f"
  "\<forall>c \<in> set preset_categories. CR \<notin> set (name c)"
  by (simp_all add: Dohod_def Rashod_def csv_header_def preset_categories_def Zarplata_def
      Investitsii_def Produkty_def Transport_ru_def Razvlecheniya_def)

lemma short_constants:
  "py_len Dohod \<le> field_limit" "py_len Rashod \<le> field_limit"
  "\<forall>f \<in> set csv_header. py_len f \<le> field_limit"
  "\<forall>c \<in> set preset_categories. py_len (name c) \<le> field_limit"
proof -
  have "int (length s) \<le> 22 \<Longrightarrow> py_len s \<le> field_limit" for s
    using py_len_le_length [of s] by (simp add: field_limit_def)
  then show "py_len Dohod \<le> field_limit" "py_len Rashod \<le> field_limit"
    "\<forall>f \<in> set csv_header. py_len f \<le> field_limit"
    "\<forall>c \<in> set preset_categories. py_len (name c) \<le> field_limit"
    by (simp_all add: Dohod_def Rashod_def csv_header_def preset_categories_def Zarplata_def
        Investitsii_def Produkty_def Transport_ru_def Razvlecheniya_def)
qed

lemma distinct_preset_names: "distinct (map name preset_categories)"
  by (simp add: preset_categories_def Zarplata_def Investitsii_def Produkty_def Transport_ru_def
      Razvlecheniya_def)

lemma CR_free_type_value: "CR \<notin> set (type_value ty)"
  by (cases ty) (simp_all add: CR_free_constants)

lemma short_type_value: "py_len (type_value ty) \<le> field_limit"
  by (cases ty) (simp_all add: short_constants)

lemma read_dict_rows_file_content:
  assumes "\<forall>t \<in> set ts. CR \<notin> set (sf (amount t)) \<and> CR \<notin> set (name (category t)) \<and>
             CR \<notin> set (str_or_none (date t)) \<and> CR \<notin> set (str_or_none (description t))"
    and "\<forall>t \<in> set ts. py_len (sf (amount t)) \<le> field_limit \<and> py_len (name (category t)) \<le> field_limit \<and>
             py_len (str_or_none (date t)) \<le> field_limit \<and>
             py_len (str_or_none (description t)) \<le> field_limit"
  shows "read_dict_rows (file_content sf ts) =
           (map (\<lambda>t. dict_zip csv_header (transaction_row sf t) Map.empty) ts, None)"
proof -
  let ?rows = "csv_header # map (transaction_row sf) ts"
  have "\<forall>row \<in> set ?rows. \<forall>f \<in> set row. CR \<notin> set f"
    using assms(1) by (auto simp: transaction_row_def CR_free_type_value CR_free_constants)
  moreover have "\<forall>row \<in> set ?rows. \<forall>f \<in> set row. py_len f \<le> field_limit"
    using assms(2) by (auto simp: transaction_row_def short_type_value short_constants)
  ultimately have "csv_reader parse_reset (file_lines [] (universal_newlines (concat (map writerow ?rows)))) =
             (?rows, None)"
    by (rule csv_round_trip)
  moreover have "filter (\<lambda>row. row \<noteq> []) (map (transaction_row sf) ts) = map (transaction_row sf) ts"
    by (induction ts) (simp_all add: transaction_row_def)
  ultimately show ?thesis
    by (simp add: read_dict_rows_def file_content_def DictReader_def comp_def)
qed

lemma save_to_file_content:
  assumes "save_to_file sf m w = (None, w')"
  shows "files w' (filename m) = Some (file_content sf (transactions m))"
  using assms
  by (auto simp: save_to_file_def write_text_def Let_def split: write_fault.splits if_splits)

lemma save_then_load:
  assumes "save_to_file sf m w = (None, w')"
    and "\<forall>t \<in> set (transactions m).
           category t \<in> set preset_categories \<and>
           float_of (sf (amount t)) = Some (amount t) \<and>
           CR \<notin> set (sf (amount t)) \<and> py_len (sf (amount t)) \<le> field_limit \<and>
           (\<exists>d. date t = Some d \<and> CR \<notin> set d \<and> py_len d \<le> field_limit) \<and>
           (\<exists>s. description t = Some s \<and> CR \<notin> set s \<and> py_len s \<le> field_limit)"
  shows "FinanceManager_init float_of (filename m) w' =
           Inr \<lparr>filename = filename m, transactions = transactions m, categories = preset_categories\<rparr>"
proof -
  have a: "\<forall>t \<in> set (transactions m). CR \<notin> set (sf (amount t)) \<and> CR \<notin> set (name (category t)) \<and>
             CR \<notin> set (str_or_none (date t)) \<and> CR \<notin> set (str_or_none (description t))"
    using assms(2) CR_free_constants(4) by (auto simp: str_or_none_def)
  have l: "\<forall>t \<in> set (transactions m). py_len (sf (amount t)) \<le> field_limit \<and>
             py_len (name (category t)) \<le> field_limit \<and>
             py_len (str_or_none (date t)) \<le> field_limit \<and>
             py_len (str_or_none (description t)) \<le> field_limit"
    using assms(2) short_constants(4) by (auto simp: str_or_none_def)
  have b: "\<forall>t \<in> set (transactions m). category t \<in> set preset_categories \<and>
             float_of (sf (amount t)) = Some (amount t) \<and> date t \<noteq> None \<and> description t \<noteq> None"
    using assms(2) by auto
  have "load_rows float_of preset_categories
          (map (\<lambda>t. dict_zip csv_header (transaction_row sf t) Map.empty) (transactions m)) [] =
        (None, [] @ transactions m)"
    using distinct_preset_names b by (rule load_rows_transaction_rows)
  then show ?thesis
    by (simp add: FinanceManager_init_def load_from_file_def read_text_def
        save_to_file_content [OF assms(1)] read_dict_rows_file_content [OF a l])
qed

end
